theory Spec2Isabelle
  imports Main "HOL-Library.Multiset"
begin

section \<open>Data model (models/game.model.ts)\<close>

text \<open>
  JavaScript numbers are modelled as \<open>int\<close> (scores, column orders, counters, indices);
  \<open>string | null\<close> and optional fields as \<open>option\<close>.  The optional array
  \<open>removedPlayers\<close> is always read as \<open>state.removedPlayers || []\<close>, so it is a list.
  Field names follow the source; \<open>id\<close> is \<open>p_id\<close> for a player and \<open>r_id\<close> for a
  round, and the saved score of a tombstone is \<open>savedScore\<close>.
\<close>

record Player =
  p_id :: string
  name :: string
  isOut :: bool
  columnOrder :: int
  originalColumnOrder :: "int option"
  rejoinCount :: int

record RoundScore =
  playerId :: string
  score :: int

record Round =
  r_id :: int
  scores :: "RoundScore list"
  winnerId :: "string option"
  timestamp :: int

record GameSettings =
  maxPoints :: int
  dropPoints :: int

record SavedScore =
  roundId :: int
  savedScore :: int

record RemovedPlayer =
  player :: Player
  rp_scores :: "SavedScore list"

record GameState =
  settings :: GameSettings
  players :: "Player list"
  rounds :: "Round list"
  currentOpenCardPlayerIndex :: int
  isGameStarted :: bool
  isGameOver :: bool
  gameWinnerId :: "string option"
  removedPlayers :: "RemovedPlayer list"

record PlayerWithTotal = Player +
  totalScore :: int
  canDrop :: bool
  canRejoin :: bool

text \<open>The service: the \<open>gameState\<close> signal and the \<open>playersEligibleForRejoin\<close> signal.\<close>

record GameService =
  gameState :: GameState
  playersEligibleForRejoin :: "string list"

definition DEFAULT_GAME_STATE :: GameState where
  "DEFAULT_GAME_STATE =
     \<lparr>settings = \<lparr>maxPoints = 201, dropPoints = 20\<rparr>, players = [], rounds = [],
      currentOpenCardPlayerIndex = 0, isGameStarted = False, isGameOver = False,
      gameWinnerId = None, removedPlayers = []\<rparr>"

section \<open>JavaScript helpers\<close>

text \<open>\<open>x || 0\<close> on a number: \<open>0\<close> is the only falsy integer.\<close>

definition orZero :: "int \<Rightarrow> int" where
  "orZero x = (if x = 0 then 0 else x)"

text \<open>\<open>s || null\<close> on a string: the empty string is falsy.\<close>

definition orNull :: "string \<Rightarrow> string option" where
  "orNull s = (if s = [] then None else Some s)"

text \<open>\<open>xs[i]\<close>: \<open>undefined\<close> outside \<open>0 .. length - 1\<close>.\<close>

definition at :: "'a list \<Rightarrow> int \<Rightarrow> 'a option" where
  "at xs i = (if 0 \<le> i \<and> i < int (length xs) then Some (xs ! nat i) else None)"

text \<open>\<open>Array.prototype.findIndex\<close> and \<open>indexOf\<close>: \<open>-1\<close> when nothing matches.\<close>

fun findIndex :: "('a \<Rightarrow> bool) \<Rightarrow> 'a list \<Rightarrow> int" where
  "findIndex P [] = - 1"
| "findIndex P (x # xs) =
     (if P x then 0 else (let i = findIndex P xs in if i = - 1 then - 1 else i + 1))"

definition indexOf :: "'a list \<Rightarrow> 'a \<Rightarrow> int" where
  "indexOf xs x = findIndex (\<lambda>y. y = x) xs"

text \<open>The remainder operator \<open>%\<close> truncates towards zero.\<close>

definition js_rem :: "int \<Rightarrow> int \<Rightarrow> int" where
  "js_rem a b = sgn a * (\<bar>a\<bar> mod \<bar>b\<bar>)"

text \<open>
  \<open>trim\<close> and \<open>toLowerCase\<close> on the ASCII range (characters are bytes here): white
  space is tab, line feed, vertical tab, form feed, carriage return and space.
\<close>

definition isWhitespace :: "char \<Rightarrow> bool" where
  "isWhitespace c = ((of_char c :: nat) \<in> {9, 10, 11, 12, 13, 32})"

definition trim :: "string \<Rightarrow> string" where
  "trim s = rev (dropWhile isWhitespace (rev (dropWhile isWhitespace s)))"

definition lowerChar :: "char \<Rightarrow> char" where
  "lowerChar c =
     (let n = (of_char c :: nat) in if 65 \<le> n \<and> n \<le> 90 then char_of (n + 32) else c)"

definition toLowerCase :: "string \<Rightarrow> string" where
  "toLowerCase s = map lowerChar s"

section \<open>GameService: derived state\<close>

text \<open>\<open>activePlayers\<close>: \<open>filter\<close>, then the stable \<open>sort\<close> by \<open>columnOrder\<close>.\<close>

definition activePlayers :: "GameState \<Rightarrow> Player list" where
  "activePlayers st = sort_key columnOrder (filter (\<lambda>p. \<not> isOut p) (players st))"

definition outPlayers :: "GameState \<Rightarrow> Player list" where
  "outPlayers st = filter (\<lambda>p. isOut p) (players st)"

text \<open>\<open>round.scores.find(s => s.playerId === playerId)\<close>\<close>

definition findScore :: "Round \<Rightarrow> string \<Rightarrow> RoundScore option" where
  "findScore round pid = find (\<lambda>s. playerId s = pid) (scores round)"

definition calculatePlayerTotal :: "GameState \<Rightarrow> string \<Rightarrow> int" where
  "calculatePlayerTotal st pid =
     foldl (\<lambda>total round.
              total + (case findScore round pid of None \<Rightarrow> 0 | Some s \<Rightarrow> orZero (score s)))
           0 (rounds st)"

text \<open>\<open>getPlayerScore\<close>: the round is looked up by id, then the player's entry in it.\<close>

definition getPlayerScore :: "GameState \<Rightarrow> int \<Rightarrow> string \<Rightarrow> int option" where
  "getPlayerScore st rid pid =
     (case find (\<lambda>r. r_id r = rid) (rounds st) of
        None \<Rightarrow> None
      | Some round \<Rightarrow> map_option score (findScore round pid))"

definition getHighestActiveScore :: "GameState \<Rightarrow> string option \<Rightarrow> int" where
  "getHighestActiveScore st excludePlayerId =
     foldl (\<lambda>highest p.
              if \<not> isOut p \<and> Some (p_id p) \<noteq> excludePlayerId
              then (let total = calculatePlayerTotal st (p_id p)
                    in if total > highest then total else highest)
              else highest)
           0 (players st)"

definition currentDealer :: "GameState \<Rightarrow> Player option" where
  "currentDealer st =
     (let active = activePlayers st in
      if length active < 2 then None
      else
        let openCardIndex = currentOpenCardPlayerIndex st in
        case at active openCardIndex of
          None \<Rightarrow> None
        | Some openCardPlayer \<Rightarrow>
            let dealerIndex =
                  (if openCardIndex = 0 then int (length active) - 1 else openCardIndex - 1)
            in at active dealerIndex)"

definition currentOpenCardPlayer :: "GameState \<Rightarrow> Player option" where
  "currentOpenCardPlayer st =
     (let active = activePlayers st in
      if length active = 0 then None
      else
        case at active (currentOpenCardPlayerIndex st) of
          Some p \<Rightarrow> Some p
        | None \<Rightarrow> at active 0)"

definition playersWithTotals :: "GameService \<Rightarrow> PlayerWithTotal list" where
  "playersWithTotals svc =
     (let state = gameState svc;
          eligibleForRejoin = playersEligibleForRejoin svc;
          activeCount = int (length (filter (\<lambda>p. \<not> isOut p) (players state)))
      in map (\<lambda>p.
           let total = calculatePlayerTotal state (p_id p);
               highestActive = getHighestActiveScore state None;
               rejoinTotal = highestActive + 1
           in \<lparr>p_id = p_id p, name = name p, isOut = isOut p, columnOrder = columnOrder p,
               originalColumnOrder = originalColumnOrder p, rejoinCount = rejoinCount p,
               totalScore = total,
               canDrop = (total + dropPoints (settings state) \<le> maxPoints (settings state)),
               canRejoin = (isOut p \<and> p_id p \<in> set eligibleForRejoin \<and>
                            rejoinTotal + dropPoints (settings state) \<le> maxPoints (settings state) \<and>
                            activeCount \<ge> 2)\<rparr>)
         (players state))"

section \<open>GameService: rotation and game over\<close>

definition checkGameOver :: "GameState \<Rightarrow> GameState" where
  "checkGameOver st =
     (let active = activePlayers st in
      if length active = 1
      then st\<lparr>isGameOver := True, gameWinnerId := Some (p_id (active ! 0))\<rparr>
      else if length active = 0 then st\<lparr>isGameOver := True\<rparr>
      else st)"

definition advanceOpenCard :: "GameState \<Rightarrow> GameState" where
  "advanceOpenCard st =
     (let active = activePlayers st in
      if length active < 2 then st
      else st\<lparr>currentOpenCardPlayerIndex :=
                 js_rem (currentOpenCardPlayerIndex st + 1) (int (length active))\<rparr>)"

definition setOpenCardPlayer :: "string \<Rightarrow> GameState \<Rightarrow> GameState" where
  "setOpenCardPlayer pid st =
     (let index = findIndex (\<lambda>p. p_id p = pid) (activePlayers st) in
      if index \<noteq> - 1 then st\<lparr>currentOpenCardPlayerIndex := index\<rparr> else st)"

definition setDealer :: "string \<Rightarrow> GameState \<Rightarrow> GameState" where
  "setDealer pid st =
     (let active = activePlayers st;
          dealerIndex = findIndex (\<lambda>p. p_id p = pid) active in
      if dealerIndex \<noteq> - 1
      then st\<lparr>currentOpenCardPlayerIndex := js_rem (dealerIndex + 1) (int (length active))\<rparr>
      else st)"

section \<open>GameService: scores\<close>

text \<open>
  \<open>checkPlayersOut\<close>: the players pushed to \<open>playersWhoWentOut\<close> inside the \<open>map\<close> are
  exactly the active ones over the ceiling, in array order.
\<close>

definition checkPlayersOut :: "GameState \<Rightarrow> string list \<times> GameState" where
  "checkPlayersOut st =
     (let over = (\<lambda>p. \<not> isOut p \<and> calculatePlayerTotal st (p_id p) > maxPoints (settings st));
          playersWhoWentOut = map p_id (filter over (players st));
          updatedPlayers =
            map (\<lambda>p. if isOut p then p
                      else if calculatePlayerTotal st (p_id p) > maxPoints (settings st)
                      then p\<lparr>isOut := True, originalColumnOrder := Some (columnOrder p)\<rparr>
                      else p)
                (players st)
      in if length playersWhoWentOut > 0
         then (playersWhoWentOut, checkGameOver (st\<lparr>players := updatedPlayers\<rparr>))
         else (playersWhoWentOut, st))"

definition findWinner :: "RoundScore list \<Rightarrow> string option" where
  "findWinner scs =
     (case find (\<lambda>s. score s = 0) scs of None \<Rightarrow> None | Some s \<Rightarrow> orNull (playerId s))"

text \<open>\<open>addRound\<close>; \<open>now\<close> is the value of \<open>Date.now()\<close>.\<close>

definition addRound :: "RoundScore list \<Rightarrow> int \<Rightarrow> GameService \<Rightarrow> GameService" where
  "addRound scs now svc =
     (let state = gameState svc;
          newRound = \<lparr>r_id = int (length (rounds state)) + 1, scores = scs,
                      winnerId = findWinner scs, timestamp = now\<rparr>;
          (playersWhoWentOut, st2) = checkPlayersOut (state\<lparr>rounds := rounds state @ [newRound]\<rparr>)
      in \<lparr>gameState = advanceOpenCard st2,
          playersEligibleForRejoin =
            (if length playersWhoWentOut > 0 then playersWhoWentOut else [])\<rparr>)"


definition updateScore :: "int \<Rightarrow> string \<Rightarrow> int \<Rightarrow> GameService \<Rightarrow> GameService" where
  "updateScore rid pid newScore svc =
     (let state = gameState svc;
          updatedRounds =
            map (\<lambda>round.
                   if r_id round = rid
                   then (let updatedScores =
                               map (\<lambda>s. if playerId s = pid then s\<lparr>score := newScore\<rparr> else s)
                                   (scores round)
                         in round\<lparr>scores := updatedScores, winnerId := findWinner updatedScores\<rparr>)
                   else round)
                (rounds state)
      in svc\<lparr>gameState := snd (checkPlayersOut (state\<lparr>rounds := updatedRounds\<rparr>))\<rparr>)"

text \<open>
  \<open>let order = 0; ps.forEach(p => { if (!p.isOut) p.columnOrder = order++; })\<close>:
  the counter is threaded through the array in array order.
\<close>

fun reassignOrder :: "int \<Rightarrow> Player list \<Rightarrow> Player list" where
  "reassignOrder order [] = []"
| "reassignOrder order (p # ps) =
     (if \<not> isOut p then p\<lparr>columnOrder := order\<rparr> # reassignOrder (order + 1) ps
      else p # reassignOrder order ps)"

definition recalculatePlayerStatuses :: "GameState \<Rightarrow> GameState" where
  "recalculatePlayerStatuses st =
     (let shouldBeOut = (\<lambda>p. calculatePlayerTotal st (p_id p) > maxPoints (settings st));
          hasChanges = list_ex (\<lambda>p. isOut p \<noteq> shouldBeOut p) (players st);
          updatedPlayers =
            map (\<lambda>p. if isOut p \<noteq> shouldBeOut p then p\<lparr>isOut := shouldBeOut p\<rparr> else p)
                (players st)
      in if hasChanges then checkGameOver (st\<lparr>players := reassignOrder 0 updatedPlayers\<rparr>)
         else st)"

definition deleteRound :: "int \<Rightarrow> GameService \<Rightarrow> GameService" where
  "deleteRound rid svc =
     (let state = gameState svc;
          filteredRounds = filter (\<lambda>r. r_id r \<noteq> rid) (rounds state);
          updatedRounds =
            map (\<lambda>(index, round). round\<lparr>r_id := int index + 1\<rparr>) (enumerate 0 filteredRounds)
      in \<lparr>gameState = recalculatePlayerStatuses (state\<lparr>rounds := updatedRounds\<rparr>),
          playersEligibleForRejoin = []\<rparr>)"

section \<open>GameService: players\<close>

definition isPlayerNameTaken :: "GameState \<Rightarrow> string \<Rightarrow> bool" where
  "isPlayerNameTaken st nm =
     (let normalizedName = toLowerCase (trim nm)
      in list_ex (\<lambda>p. toLowerCase (name p) = normalizedName) (players st))"

definition findRemovedPlayer :: "GameState \<Rightarrow> string \<Rightarrow> RemovedPlayer option" where
  "findRemovedPlayer st nm =
     (let normalizedName = toLowerCase (trim nm)
      in find (\<lambda>rp. toLowerCase (name (player rp)) = normalizedName) (removedPlayers st))"

text \<open>
  \<open>addPlayer\<close>; \<open>newId\<close> is the value of \<open>generateId()\<close>.  The result is the returned
  boolean and the service afterwards.
\<close>

definition addPlayer :: "string \<Rightarrow> string \<Rightarrow> GameService \<Rightarrow> bool \<times> GameService" where
  "addPlayer nm newId svc =
     (let state = gameState svc;
          trimmedName = trim nm
      in if isPlayerNameTaken state trimmedName then (False, svc)
         else
           case findRemovedPlayer state trimmedName of
             Some removedPlayer \<Rightarrow>
               let restoredPlayer =
                     (player removedPlayer)
                       \<lparr>isOut := False,
                        columnOrder := int (length (filter (\<lambda>p. \<not> isOut p) (players state))),
                        rejoinCount := orZero (rejoinCount (player removedPlayer))\<rparr>;
                   updatedRounds =
                     map (\<lambda>round.
                            case find (\<lambda>s. roundId s = r_id round) (rp_scores removedPlayer) of
                              Some saved \<Rightarrow>
                                round\<lparr>scores := scores round @
                                         [\<lparr>playerId = p_id restoredPlayer, score = savedScore saved\<rparr>]\<rparr>
                            | None \<Rightarrow> round)
                         (rounds state);
                   updatedRemovedPlayers =
                     filter (\<lambda>rp. toLowerCase (name (player rp)) \<noteq> toLowerCase trimmedName)
                            (removedPlayers state)
               in (True, svc\<lparr>gameState := state\<lparr>players := players state @ [restoredPlayer],
                                                   rounds := updatedRounds,
                                                   removedPlayers := updatedRemovedPlayers\<rparr>\<rparr>)
           | None \<Rightarrow>
               let newPlayer =
                     \<lparr>p_id = newId, name = trimmedName, isOut = False,
                      columnOrder = int (length (filter (\<lambda>p. \<not> isOut p) (players state))),
                      originalColumnOrder = None, rejoinCount = 0\<rparr>
               in (True, svc\<lparr>gameState := state\<lparr>players := players state @ [newPlayer]\<rparr>\<rparr>))"

definition removePlayer :: "string \<Rightarrow> GameService \<Rightarrow> GameService" where
  "removePlayer pid svc =
     (let state = gameState svc in
      case find (\<lambda>p. p_id p = pid) (players state) of
        None \<Rightarrow> svc
      | Some playerToRemove \<Rightarrow>
          let playerScores =
                concat (map (\<lambda>round. case findScore round pid of
                                         Some s \<Rightarrow> [\<lparr>roundId = r_id round, savedScore = score s\<rparr>]
                                       | None \<Rightarrow> [])
                            (rounds state));
              removedPlayerRecord = \<lparr>player = playerToRemove, rp_scores = playerScores\<rparr>;
              updatedRemovedPlayers =
                filter (\<lambda>rp. toLowerCase (name (player rp)) \<noteq> toLowerCase (name playerToRemove))
                       (removedPlayers state) @ [removedPlayerRecord];
              updatedPlayers = reassignOrder 0 (filter (\<lambda>p. p_id p \<noteq> pid) (players state));
              updatedRounds =
                map (\<lambda>round. round\<lparr>scores := filter (\<lambda>s. playerId s \<noteq> pid) (scores round)\<rparr>)
                    (rounds state)
          in \<lparr>gameState = checkGameOver (state\<lparr>players := updatedPlayers, rounds := updatedRounds,
                                                removedPlayers := updatedRemovedPlayers\<rparr>),
              playersEligibleForRejoin = filter (\<lambda>i. i \<noteq> pid) (playersEligibleForRejoin svc)\<rparr>)"

definition reorderPlayers :: "string list \<Rightarrow> GameService \<Rightarrow> GameService" where
  "reorderPlayers playerIds svc =
     (let state = gameState svc;
          updatedPlayers =
            map (\<lambda>p. let newOrder = indexOf playerIds (p_id p)
                      in if newOrder \<noteq> - 1 then p\<lparr>columnOrder := newOrder\<rparr> else p)
                (players state)
      in svc\<lparr>gameState := state\<lparr>players := updatedPlayers\<rparr>\<rparr>)"

definition rejoinPlayer :: "string \<Rightarrow> GameService \<Rightarrow> GameService" where
  "rejoinPlayer pid svc =
     (let state = gameState svc in
      case find (\<lambda>p. p_id p = pid) (players state) of
        None \<Rightarrow> svc
      | Some pl \<Rightarrow>
          if \<not> isOut pl \<or> pid \<notin> set (playersEligibleForRejoin svc) then svc
          else
            let currentTotal = calculatePlayerTotal state pid;
                highestActive = getHighestActiveScore state None;
                targetTotal = highestActive + 1;
                lastRoundScore =
                  (case at (rounds state) (int (length (rounds state)) - 1) of
                     None \<Rightarrow> 0
                   | Some lastRound \<Rightarrow>
                       (case findScore lastRound pid of None \<Rightarrow> 0 | Some s \<Rightarrow> orZero (score s)));
                newLastRoundScore = targetTotal - currentTotal + lastRoundScore;
                originalOrder =
                  (case originalColumnOrder pl of Some c \<Rightarrow> c | None \<Rightarrow> columnOrder pl);
                updatedPlayers =
                  map (\<lambda>p. if p_id p = pid
                            then p\<lparr>isOut := False, columnOrder := originalOrder,
                                   originalColumnOrder := None,
                                   rejoinCount := orZero (rejoinCount p) + 1\<rparr>
                            else if \<not> isOut p \<and> columnOrder p \<ge> originalOrder
                            then p\<lparr>columnOrder := columnOrder p + 1\<rparr>
                            else p)
                      (players state);
                updatedRounds =
                  map (\<lambda>(index, round).
                         if int index = int (length (rounds state)) - 1
                         then round\<lparr>scores :=
                                map (\<lambda>s. if playerId s = pid then s\<lparr>score := newLastRoundScore\<rparr>
                                          else s)
                                    (scores round)\<rparr>
                         else round)
                      (enumerate 0 (rounds state));
                activeAfterRejoin =
                  sort_key columnOrder (filter (\<lambda>p. \<not> isOut p) updatedPlayers);
                newOpenCardIndex = findIndex (\<lambda>p. p_id p = pid) activeAfterRejoin
            in \<lparr>gameState = state\<lparr>players := updatedPlayers, rounds := updatedRounds,
                                    currentOpenCardPlayerIndex := max 0 newOpenCardIndex,
                                    isGameOver := False, gameWinnerId := None\<rparr>,
                playersEligibleForRejoin =
                  filter (\<lambda>i. i \<noteq> pid) (playersEligibleForRejoin svc)\<rparr>)"

definition initializeGame :: "int \<Rightarrow> int \<Rightarrow> GameService \<Rightarrow> GameService" where
  "initializeGame maxP dropP svc =
     svc\<lparr>gameState := (gameState svc)\<lparr>settings := \<lparr>maxPoints = maxP, dropPoints = dropP\<rparr>,
                                        isGameStarted := True\<rparr>\<rparr>"

definition updateSettings :: "GameSettings \<Rightarrow> GameService \<Rightarrow> GameService" where
  "updateSettings s svc = svc\<lparr>gameState := (gameState svc)\<lparr>settings := s\<rparr>\<rparr>"

text \<open>A freshly constructed service with nothing in storage.\<close>

definition initialService :: GameService where
  "initialService = \<lparr>gameState = DEFAULT_GAME_STATE, playersEligibleForRejoin = []\<rparr>"

text \<open>
  \<open>newGame\<close> makes every player active and numbers the columns in array order;
  \<open>resetEverything\<close> returns to the default state.
\<close>

definition newGame :: "GameService \<Rightarrow> GameService" where
  "newGame svc =
     (let state = gameState svc;
          resetPlayers =
            map (\<lambda>(order, p). p\<lparr>isOut := False, columnOrder := int order\<rparr>)
                (enumerate 0 (players state))
      in \<lparr>gameState = state\<lparr>players := resetPlayers, rounds := [],
                              currentOpenCardPlayerIndex := 0, isGameOver := False,
                              gameWinnerId := None\<rparr>,
          playersEligibleForRejoin = []\<rparr>)"

definition resetEverything :: "GameService \<Rightarrow> GameService" where
  "resetEverything svc = \<lparr>gameState = DEFAULT_GAME_STATE, playersEligibleForRejoin = []\<rparr>"

text \<open>\<open>addJoinScoreForNewPlayer\<close>: the join score is appended to the last round.\<close>

definition addJoinScoreForNewPlayer :: "string \<Rightarrow> int \<Rightarrow> GameService \<Rightarrow> GameService" where
  "addJoinScoreForNewPlayer pname joinScore svc =
     (let state = gameState svc in
      case find (\<lambda>p. name p = pname \<and> \<not> isOut p) (players state) of
        None \<Rightarrow> svc
      | Some pl \<Rightarrow>
          if length (rounds state) = 0 then svc
          else
            let updatedRounds =
                  map (\<lambda>(index, round).
                         if int index = int (length (rounds state)) - 1
                         then round\<lparr>scores := scores round @
                                         [\<lparr>playerId = p_id pl, score = joinScore\<rparr>]\<rparr>
                         else round)
                      (enumerate 0 (rounds state));
                newOpenCardIndex = findIndex (\<lambda>p. p_id p = p_id pl) (activePlayers state)
            in svc\<lparr>gameState := state\<lparr>rounds := updatedRounds,
                                            currentOpenCardPlayerIndex := max 0 newOpenCardIndex\<rparr>\<rparr>)"

section \<open>Player panel (PlayerPanelComponent)\<close>



section \<open>Reachable service states\<close>

text \<open>
  The service starts with an empty rejoin-eligible list, whatever state it loads, and
  changes only through its public operations.  A round submission carries a score for
  each active player (\<open>@param scores - Array of scores for each player\<close>; the score-entry
  form builds one entry per active player): \<open>coversActive\<close>.  \<open>hasEntry\<close>: there is a last
  round and it holds an entry for the player.
\<close>

definition coversActive :: "RoundScore list \<Rightarrow> GameState \<Rightarrow> bool" where
  "coversActive scs st =
     list_all (\<lambda>p. list_ex (\<lambda>s. playerId s = p_id p) scs) (filter (\<lambda>p. \<not> isOut p) (players st))"

inductive reachable :: "GameService \<Rightarrow> bool" where
  start: "playersEligibleForRejoin svc = [] \<Longrightarrow> reachable svc"
| initializeGame: "reachable svc \<Longrightarrow> reachable (initializeGame maxP dropP svc)"
| updateSettings: "reachable svc \<Longrightarrow> reachable (updateSettings s svc)"
| addPlayer: "reachable svc \<Longrightarrow> reachable (snd (addPlayer nm newId svc))"
| addJoinScoreForNewPlayer:
    "reachable svc \<Longrightarrow> reachable (addJoinScoreForNewPlayer nm joinScore svc)"
| rejoinPlayer: "reachable svc \<Longrightarrow> reachable (rejoinPlayer pid svc)"
| removePlayer: "reachable svc \<Longrightarrow> reachable (removePlayer pid svc)"
| reorderPlayers: "reachable svc \<Longrightarrow> reachable (reorderPlayers playerIds svc)"
| addRound:
    "reachable svc \<Longrightarrow> coversActive scs (gameState svc) \<Longrightarrow> reachable (addRound scs now svc)"
| updateScore: "reachable svc \<Longrightarrow> reachable (updateScore rid pid newScore svc)"
| advanceOpenCard:
    "reachable svc \<Longrightarrow> reachable (svc\<lparr>gameState := advanceOpenCard (gameState svc)\<rparr>)"
| setOpenCardPlayer:
    "reachable svc \<Longrightarrow> reachable (svc\<lparr>gameState := setOpenCardPlayer pid (gameState svc)\<rparr>)"
| setDealer: "reachable svc \<Longrightarrow> reachable (svc\<lparr>gameState := setDealer pid (gameState svc)\<rparr>)"
| newGame: "reachable svc \<Longrightarrow> reachable (newGame svc)"
| resetEverything: "reachable svc \<Longrightarrow> reachable (resetEverything svc)"
| deleteRound: "reachable svc \<Longrightarrow> reachable (deleteRound rid svc)"

definition hasEntry :: "Round list \<Rightarrow> string \<Rightarrow> bool" where
  "hasEntry rs pid = (rs \<noteq> [] \<and> list_ex (\<lambda>s. playerId s = pid) (scores (last rs)))"

section \<open>Per-round scores\<close>

text \<open>A player's score in one round: the entry \<open>getPlayerScore\<close> reads, \<open>0\<close> when absent.\<close>

definition scoreIn :: "Round \<Rightarrow> string \<Rightarrow> int" where
  "scoreIn round pid = (case findScore round pid of None \<Rightarrow> 0 | Some s \<Rightarrow> score s)"




section \<open>Example game\<close>

text \<open>
  The scenario of the specification: ceiling 101, drop penalty 20, players Alice, Bob and
  Carol seated in columns 0, 1 and 2, and a first round in which Carol scores 110.
\<close>

definition pA :: Player where
  "pA = \<lparr>p_id = ''a1'', name = ''Alice'', isOut = False, columnOrder = 0,
         originalColumnOrder = None, rejoinCount = 0\<rparr>"

definition pB :: Player where
  "pB = \<lparr>p_id = ''b2'', name = ''Bob'', isOut = False, columnOrder = 1,
         originalColumnOrder = None, rejoinCount = 0\<rparr>"

definition pC :: Player where
  "pC = \<lparr>p_id = ''c3'', name = ''Carol'', isOut = False, columnOrder = 2,
         originalColumnOrder = None, rejoinCount = 0\<rparr>"

definition svcABC :: GameService where
  "svcABC =
     \<lparr>gameState =
        \<lparr>settings = \<lparr>maxPoints = 101, dropPoints = 20\<rparr>, players = [pA, pB, pC], rounds = [],
         currentOpenCardPlayerIndex = 0, isGameStarted = True, isGameOver = False,
         gameWinnerId = None, removedPlayers = []\<rparr>,
      playersEligibleForRejoin = []\<rparr>"

definition round1 :: "RoundScore list" where
  "round1 = [\<lparr>playerId = ''a1'', score = 0\<rparr>, \<lparr>playerId = ''b2'', score = 40\<rparr>,
             \<lparr>playerId = ''c3'', score = 110\<rparr>]"

definition svcRound1 :: GameService where
  "svcRound1 = addRound round1 1000 svcABC"

section \<open>Score entry (InlineScoreEntryComponent) and its hand-over to the service\<close>

text \<open>
  The score-entry form holds one entry per active player (\<open>score: number | null\<close>).
  \<open>submitScores\<close> returns without emitting when \<open>isValid\<close> fails; otherwise it emits the
  converted scores, which \<open>AppComponent.onScoresAdded\<close> passes to \<open>addRound\<close>.
\<close>

record ScoreEntry =
  entryPlayerId :: string
  playerName :: string
  entryScore :: "int option"
  isDropped :: bool

definition isWinner :: "ScoreEntry \<Rightarrow> bool" where
  "isWinner entry = (\<not> isDropped entry \<and> (entryScore entry = None \<or> entryScore entry = Some 0))"

definition isValid :: "ScoreEntry list \<Rightarrow> bool" where
  "isValid entries = (length (filter isWinner entries) = 1)"

definition onScoresAdded :: "RoundScore list \<Rightarrow> int \<Rightarrow> GameService \<Rightarrow> GameService" where
  "onScoresAdded scs now svc = addRound scs now svc"

definition submitScores :: "ScoreEntry list \<Rightarrow> int \<Rightarrow> GameService \<Rightarrow> GameService" where
  "submitScores entries now svc =
     (if \<not> isValid entries then svc
      else
        let scs = map (\<lambda>entry.
                    \<lparr>playerId = entryPlayerId entry,
                     score = (if isDropped entry then dropPoints (settings (gameState svc))
                              else case entryScore entry of
                                     None \<Rightarrow> 0
                                   | Some v \<Rightarrow> (if v = 0 then 0 else v))\<rparr>)
                  entries
        in onScoresAdded scs now svc)"

definition twoZeros :: "RoundScore list" where
  "twoZeros = [\<lparr>playerId = ''a1'', score = 0\<rparr>, \<lparr>playerId = ''b2'', score = 0\<rparr>,
               \<lparr>playerId = ''c3'', score = 5\<rparr>]"

definition noZeros :: "RoundScore list" where
  "noZeros = [\<lparr>playerId = ''a1'', score = 7\<rparr>, \<lparr>playerId = ''b2'', score = 9\<rparr>,
              \<lparr>playerId = ''c3'', score = 5\<rparr>]"

definition twoWinnerEntries :: "ScoreEntry list" where
  "twoWinnerEntries =
     [\<lparr>entryPlayerId = ''a1'', playerName = ''Alice'', entryScore = None, isDropped = False\<rparr>,
      \<lparr>entryPlayerId = ''b2'', playerName = ''Bob'', entryScore = Some 0, isDropped = False\<rparr>,
      \<lparr>entryPlayerId = ''c3'', playerName = ''Carol'', entryScore = Some 5, isDropped = False\<rparr>]"

text \<open>A round that eliminates Bob and Carol at once, which ends the game for Alice.\<close>

definition roundBC :: "RoundScore list" where
  "roundBC = [\<lparr>playerId = ''a1'', score = 0\<rparr>, \<lparr>playerId = ''b2'', score = 110\<rparr>,
              \<lparr>playerId = ''c3'', score = 120\<rparr>]"

definition svcGameOver :: GameService where
  "svcGameOver = addRound roundBC 1000 svcABC"

text \<open>
  A player eliminated without an entry in the last round: Carol reaches 50 points, the
  ceiling is lowered to 40, and the next submission omits her.
\<close>

definition roundC50 :: "RoundScore list" where
  "roundC50 = [\<lparr>playerId = ''a1'', score = 0\<rparr>, \<lparr>playerId = ''b2'', score = 10\<rparr>,
               \<lparr>playerId = ''c3'', score = 50\<rparr>]"

definition roundAB :: "RoundScore list" where
  "roundAB = [\<lparr>playerId = ''a1'', score = 0\<rparr>, \<lparr>playerId = ''b2'', score = 5\<rparr>]"

definition svcNoEntry :: GameService where
  "svcNoEntry =
     addRound roundAB 2000
       (updateSettings \<lparr>maxPoints = 40, dropPoints = 20\<rparr> (addRound roundC50 1000 svcABC))"

text \<open>
  Rotation examples: the open card is given to Carol, who is then removed; and four
  players A, B, C, D with the rotation index at C.
\<close>

definition svcOpenAtCarol :: GameService where
  "svcOpenAtCarol = svcABC\<lparr>gameState := setOpenCardPlayer ''c3'' (gameState svcABC)\<rparr>"

definition svcCarolRemoved :: GameService where
  "svcCarolRemoved = removePlayer ''c3'' svcOpenAtCarol"

definition pD :: Player where
  "pD = \<lparr>p_id = ''d4'', name = ''Dave'', isOut = False, columnOrder = 3,
         originalColumnOrder = None, rejoinCount = 0\<rparr>"

definition stABCD :: GameState where
  "stABCD = (gameState svcABC)\<lparr>players := [pA, pB, pC, pD], currentOpenCardPlayerIndex := 2\<rparr>"

text \<open>
  The example of the source's documentation: after a round D holds the open card and C
  deals; then D goes out through an edit of that round.
\<close>

definition roundABCD :: "RoundScore list" where
  "roundABCD = [\<lparr>playerId = ''a1'', score = 0\<rparr>, \<lparr>playerId = ''b2'', score = 10\<rparr>,
                \<lparr>playerId = ''c3'', score = 20\<rparr>, \<lparr>playerId = ''d4'', score = 30\<rparr>]"

definition svcOpenAtDave :: GameService where
  "svcOpenAtDave =
     addRound roundABCD 1000 \<lparr>gameState = stABCD, playersEligibleForRejoin = []\<rparr>"

definition svcDaveOut :: GameService where
  "svcDaveOut = updateScore 1 ''d4'' 150 svcOpenAtDave"

text \<open>A second round, submitted while Carol is out.\<close>

definition round2 :: "RoundScore list" where
  "round2 = [\<lparr>playerId = ''a1'', score = 0\<rparr>, \<lparr>playerId = ''b2'', score = 30\<rparr>]"

section \<open>Seating order\<close>

text \<open>
  The active players, taken in seat order, carry the column numbers \<open>0, 1, ..., N - 1\<close>:
  their \<open>columnOrder\<close> values are a permutation of \<open>0..N-1\<close>.
\<close>

definition contiguousOrder :: "GameState \<Rightarrow> bool" where
  "contiguousOrder st =
     (map columnOrder (activePlayers st) = map int [0..<length (activePlayers st)])"

text \<open>A round that eliminates Bob, seated between Alice and Carol.\<close>

definition roundB110 :: "RoundScore list" where
  "roundB110 = [\<lparr>playerId = ''a1'', score = 0\<rparr>, \<lparr>playerId = ''b2'', score = 110\<rparr>,
                \<lparr>playerId = ''c3'', score = 10\<rparr>]"

definition svcBobOut :: GameService where
  "svcBobOut = addRound roundB110 1000 svcABC"

text \<open>Carol, out with 110 points, is removed from the game.\<close>

definition svcCarolGone :: GameService where
  "svcCarolGone = removePlayer ''c3'' svcRound1"


text \<open>
  Bob is removed and added again after a round was deleted, and after a new game was
  started and a round played in it.
\<close>

definition roundSecond :: "RoundScore list" where
  "roundSecond = [\<lparr>playerId = ''a1'', score = 5\<rparr>, \<lparr>playerId = ''b2'', score = 20\<rparr>,
                  \<lparr>playerId = ''c3'', score = 0\<rparr>]"

definition roundNewGame :: "RoundScore list" where
  "roundNewGame = [\<lparr>playerId = ''a1'', score = 0\<rparr>, \<lparr>playerId = ''c3'', score = 15\<rparr>]"

definition svcTwoRounds :: GameService where
  "svcTwoRounds = addRound roundSecond 2000 (addRound roundC50 1000 svcABC)"

definition svcBobAfterDelete :: GameService where
  "svcBobAfterDelete =
     snd (addPlayer ''bob'' ''x9'' (deleteRound 1 (removePlayer ''b2'' svcTwoRounds)))"

definition svcNewGameRound :: GameService where
  "svcNewGameRound =
     addRound roundNewGame 3000 (newGame (removePlayer ''b2'' (addRound roundC50 1000 svcABC)))"

definition svcBobAfterNewGame :: GameService where
  "svcBobAfterNewGame = snd (addPlayer ''bob'' ''x9'' svcNewGameRound)"

section \<open>Basic facts\<close>

lemma orZero_id [simp]: "orZero x = x"
  by (simp add: orZero_def)

lemma foldl_plus_sum_list:
  "foldl (\<lambda>total r. total + f r) a xs = (a::int) + sum_list (map f xs)"
  by (induction xs arbitrary: a) simp_all

lemma calculatePlayerTotal_sum:
  "calculatePlayerTotal st pid = (\<Sum>r\<leftarrow>rounds st. scoreIn r pid)"
  unfolding calculatePlayerTotal_def scoreIn_def
  by (simp add: foldl_plus_sum_list cong: option.case_cong)

lemma rounds_checkGameOver [simp]: "rounds (checkGameOver st) = rounds st"
  by (simp add: checkGameOver_def Let_def)

lemma rounds_checkPlayersOut [simp]: "rounds (snd (checkPlayersOut st)) = rounds st"
  by (simp add: checkPlayersOut_def Let_def)

lemma rounds_advanceOpenCard [simp]: "rounds (advanceOpenCard st) = rounds st"
  by (simp add: advanceOpenCard_def Let_def)

lemma rounds_addRound:
  "rounds (gameState (addRound scs now svc)) =
     rounds (gameState svc) @
       [\<lparr>r_id = int (length (rounds (gameState svc))) + 1, scores = scs,
         winnerId = findWinner scs, timestamp = now\<rparr>]"
  by (simp add: addRound_def Let_def split_beta)


section \<open>Evaluating the example game\<close>

lemmas eval_defs = addRound_def checkPlayersOut_def Let_def calculatePlayerTotal_def findScore_def
  findWinner_def orNull_def checkGameOver_def activePlayers_def advanceOpenCard_def js_rem_def
  updateSettings_def pA_def pB_def pC_def

lemma svcRound1_eq:
  "svcRound1 =
     \<lparr>gameState =
        \<lparr>settings = \<lparr>maxPoints = 101, dropPoints = 20\<rparr>,
         players = [pA, pB, pC\<lparr>isOut := True, originalColumnOrder := Some 2\<rparr>],
         rounds = [\<lparr>r_id = 1, scores = round1, winnerId = Some ''a1'', timestamp = 1000\<rparr>],
         currentOpenCardPlayerIndex = 1, isGameStarted = True, isGameOver = False,
         gameWinnerId = None, removedPlayers = []\<rparr>,
      playersEligibleForRejoin = [''c3'']\<rparr>"
  by (simp add: svcRound1_def addRound_def svcABC_def round1_def pA_def pB_def pC_def
      checkPlayersOut_def Let_def calculatePlayerTotal_def findScore_def findWinner_def orNull_def
      checkGameOver_def activePlayers_def advanceOpenCard_def js_rem_def)

lemma lower_names:
  "toLowerCase ''Alice'' = ''alice''" "toLowerCase ''Bob'' = ''bob''"
  "toLowerCase ''Carol'' = ''carol''" "toLowerCase ''carol'' = ''carol''"
  "toLowerCase ''alice'' = ''alice''"
  by code_simp+

lemma trim_names:
  "trim ''carol'' = ''carol''" "trim '' alice '' = ''alice''" "trim ''Bob'' = ''Bob''"
  by code_simp+

section \<open>C1: the total is the sum of the per-round scores\<close>








section \<open>C2: where a submission without exactly one winner is rejected\<close>

text \<open>
  Claim C2 as stated fails: \<open>addRound\<close> records a list with two zero scores, and a list
  with none, as a new round.
\<close>

theorem C2_addRound_rejects_counterexample:
  "length (filter (\<lambda>s. score s = 0) twoZeros) = 2
   \<and> map scores (rounds (gameState (addRound twoZeros 1000 svcABC))) = [twoZeros]
   \<and> addRound twoZeros 1000 svcABC \<noteq> svcABC
   \<and> length (filter (\<lambda>s. score s = 0) noZeros) = 0
   \<and> map scores (rounds (gameState (addRound noZeros 1000 svcABC))) = [noZeros]
   \<and> addRound noZeros 1000 svcABC \<noteq> svcABC"
proof -
  have a: "rounds (gameState (addRound scs 1000 svcABC)) \<noteq> rounds (gameState svcABC)" for scs
    by (simp add: rounds_addRound)
  have b: "addRound scs 1000 svcABC \<noteq> svcABC" for scs
    using a [of scs] by auto
  show ?thesis
    using b by (simp add: rounds_addRound svcABC_def) (simp add: twoZeros_def noZeros_def)
qed

text \<open>
  Claim C2, amended.  \<open>addRound\<close> does not validate: it always appends one round holding
  the submitted list, numbered one above the number of rounds, with the first zero-score
  entry's player as winner.  The rule of exactly one winner is enforced by the caller:
  \<open>submitScores\<close> leaves the service unchanged when the number of winner entries (not
  dropped, empty or 0) is not exactly one.
\<close>

theorem C2_addRound_always_appends:
  "rounds (gameState (addRound scs now svc)) =
     rounds (gameState svc) @
       [\<lparr>r_id = int (length (rounds (gameState svc))) + 1, scores = scs,
         winnerId = findWinner scs, timestamp = now\<rparr>]
   \<and> (length (filter isWinner entries) \<noteq> 1 \<longrightarrow> submitScores entries now svc = svc)"
  by (simp add: rounds_addRound submitScores_def isValid_def)

theorem C2_addRound_always_appends_witness:
  "length (filter isWinner twoWinnerEntries) = 2
   \<and> submitScores twoWinnerEntries 1000 svcABC = svcABC
   \<and> length (rounds (gameState (addRound twoZeros 1000 svcABC))) = 1"
proof -
  have n: "length (filter isWinner twoWinnerEntries) = 2"
    by (simp add: twoWinnerEntries_def isWinner_def)
  from C2_addRound_always_appends [of twoZeros 1000 svcABC twoWinnerEntries] n
  show ?thesis by (simp add: svcABC_def)
qed

section \<open>Facts about the elimination check\<close>

lemma settings_checkGameOver [simp]: "settings (checkGameOver st) = settings st"
  by (simp add: checkGameOver_def Let_def)

lemma players_checkGameOver [simp]: "players (checkGameOver st) = players st"
  by (simp add: checkGameOver_def Let_def)

lemma calculatePlayerTotal_cong_rounds:
  "rounds st = rounds st' \<Longrightarrow> calculatePlayerTotal st pid = calculatePlayerTotal st' pid"
  by (simp add: calculatePlayerTotal_def)

lemma isOut_checkPlayersOut:
  "map isOut (players (snd (checkPlayersOut st))) =
     map (\<lambda>p. isOut p \<or> calculatePlayerTotal st (p_id p) > maxPoints (settings st)) (players st)"
  by (auto simp: checkPlayersOut_def Let_def filter_empty_conv)

lemma p_id_checkPlayersOut:
  "map p_id (players (snd (checkPlayersOut st))) = map p_id (players st)"
  by (auto simp: checkPlayersOut_def Let_def)

lemma checkPlayersOut_no_change:
  "list_all (\<lambda>p. isOut p \<or> calculatePlayerTotal st (p_id p) \<le> maxPoints (settings st)) (players st)
   \<Longrightarrow> checkPlayersOut st = ([], st)"
  by (auto simp: checkPlayersOut_def Let_def filter_empty_conv list_all_iff)


section \<open>C3: what an edit recomputes\<close>

lemma updateScore_gameState:
  "gameState (updateScore rid pid v svc) =
     snd (checkPlayersOut ((gameState svc)\<lparr>rounds :=
       map (\<lambda>round.
              if r_id round = rid
              then round\<lparr>scores := map (\<lambda>s. if playerId s = pid then s\<lparr>score := v\<rparr> else s)
                                         (scores round),
                         winnerId := findWinner
                           (map (\<lambda>s. if playerId s = pid then s\<lparr>score := v\<rparr> else s)
                                (scores round))\<rparr>
              else round)
           (rounds (gameState svc))\<rparr>))"
  unfolding updateScore_def Let_def by simp

text \<open>
  Claim C3 as stated fails: Carol is out with 110 points against a ceiling of 101; editing
  her round-1 score to 10 brings her total to 10, and she is still out afterwards.
\<close>

theorem C3_updateScore_resurrects_counterexample:
  "calculatePlayerTotal (gameState (updateScore 1 ''c3'' 10 svcRound1)) ''c3'' = 10
   \<and> maxPoints (settings (gameState (updateScore 1 ''c3'' 10 svcRound1))) = 101
   \<and> map (\<lambda>p. (p_id p, isOut p)) (players (gameState svcRound1)) =
        [(''a1'', False), (''b2'', False), (''c3'', True)]
   \<and> map (\<lambda>p. (p_id p, isOut p)) (players (gameState (updateScore 1 ''c3'' 10 svcRound1))) =
        [(''a1'', False), (''b2'', False), (''c3'', True)]"
  by (simp add: svcRound1_eq updateScore_def round1_def pA_def pB_def pC_def
      checkPlayersOut_def Let_def calculatePlayerTotal_def findScore_def findWinner_def orNull_def)

lemma snd_checkPlayersOut:
  "snd (checkPlayersOut st) =
     (if list_ex (\<lambda>p. \<not> isOut p \<and> calculatePlayerTotal st (p_id p) > maxPoints (settings st))
                 (players st)
      then checkGameOver
             (st\<lparr>players :=
                   map (\<lambda>p. if isOut p then p
                             else if calculatePlayerTotal st (p_id p) > maxPoints (settings st)
                             then p\<lparr>isOut := True, originalColumnOrder := Some (columnOrder p)\<rparr>
                             else p)
                       (players st)\<rparr>)
      else st)"
  by (auto simp: checkPlayersOut_def Let_def list_ex_iff filter_empty_conv)

lemma mark_unchanged:
  "\<not> list_ex (\<lambda>p. \<not> isOut p \<and> P p) ps \<Longrightarrow>
     map (\<lambda>p. if isOut p then p
               else if P p then p\<lparr>isOut := True, originalColumnOrder := Some (columnOrder p)\<rparr>
               else p) ps = ps"
  by (induction ps) auto

lemma players_snd_checkPlayersOut:
  "players (snd (checkPlayersOut st)) =
     map (\<lambda>p. if isOut p then p
               else if calculatePlayerTotal st (p_id p) > maxPoints (settings st)
               then p\<lparr>isOut := True, originalColumnOrder := Some (columnOrder p)\<rparr>
               else p)
         (players st)"
proof (cases "list_ex (\<lambda>p. \<not> isOut p \<and> calculatePlayerTotal st (p_id p) > maxPoints (settings st))
                 (players st)")
  case True
  then show ?thesis by (simp add: snd_checkPlayersOut)
next
  case False
  then show ?thesis
    using mark_unchanged [of "\<lambda>p. calculatePlayerTotal st (p_id p) > maxPoints (settings st)"
        "players st"]
    by (simp add: snd_checkPlayersOut)
qed

lemma checkGameOver_flags:
  "isGameOver (checkGameOver st) = (isGameOver st \<or> length (activePlayers st) \<le> 1)"
  "gameWinnerId (checkGameOver st) =
     (if length (activePlayers st) = 1 then Some (p_id (activePlayers st ! 0))
      else gameWinnerId st)"
proof -
  have "length (activePlayers st) \<le> 1 \<longleftrightarrow>
          length (activePlayers st) = 1 \<or> length (activePlayers st) = 0"
    by linarith
  then show "isGameOver (checkGameOver st) = (isGameOver st \<or> length (activePlayers st) \<le> 1)"
    by (simp add: checkGameOver_def Let_def)
  show "gameWinnerId (checkGameOver st) =
     (if length (activePlayers st) = 1 then Some (p_id (activePlayers st ! 0))
      else gameWinnerId st)"
    by (simp add: checkGameOver_def Let_def)
qed

lemma activePlayers_checkGameOver [simp]: "activePlayers (checkGameOver st) = activePlayers st"
  by (simp add: activePlayers_def)

lemma checkPlayersOut_flags:
  "isGameOver (snd (checkPlayersOut st)) =
     (isGameOver st \<or>
      (list_ex (\<lambda>p. \<not> isOut p \<and> calculatePlayerTotal st (p_id p) > maxPoints (settings st))
               (players st) \<and>
       length (activePlayers (snd (checkPlayersOut st))) \<le> 1))"
  "gameWinnerId (snd (checkPlayersOut st)) =
     (if list_ex (\<lambda>p. \<not> isOut p \<and> calculatePlayerTotal st (p_id p) > maxPoints (settings st))
                 (players st) \<and>
         length (activePlayers (snd (checkPlayersOut st))) = 1
      then Some (p_id (activePlayers (snd (checkPlayersOut st)) ! 0))
      else gameWinnerId st)"
  by (simp_all add: snd_checkPlayersOut checkGameOver_flags)

lemma other_fields_checkPlayersOut:
  "settings (snd (checkPlayersOut st)) = settings st"
  "currentOpenCardPlayerIndex (snd (checkPlayersOut st)) = currentOpenCardPlayerIndex st"
  "removedPlayers (snd (checkPlayersOut st)) = removedPlayers st"
  "isGameStarted (snd (checkPlayersOut st)) = isGameStarted st"
  by (simp_all add: snd_checkPlayersOut checkGameOver_def Let_def)

text \<open>
  Claim C3, amended.  \<open>updateScore\<close> replaces the player's score in the round with the
  given id and recomputes that round's winner; then only the elimination check runs:
  each player who was out stays as they were, whatever the new total, and each active
  player whose recomputed total exceeds \<open>maxPoints\<close> is marked out with the column saved
  in \<open>originalColumnOrder\<close>.  The game-over check runs only when the edit newly
  eliminated a player: then the game is over as soon as at most one active player is
  left, who, if there is one, becomes the winner; otherwise \<open>isGameOver\<close> and
  \<open>gameWinnerId\<close> are as before.  Settings, rotation index, tombstones and the
  rejoin-eligible list are unchanged.
\<close>

theorem C3_updateScore_edits_then_eliminates:
  "rounds (gameState (updateScore rid pid v svc)) =
     map (\<lambda>round.
            if r_id round = rid
            then round\<lparr>scores := map (\<lambda>s. if playerId s = pid then s\<lparr>score := v\<rparr> else s)
                                       (scores round),
                       winnerId := findWinner
                         (map (\<lambda>s. if playerId s = pid then s\<lparr>score := v\<rparr> else s)
                              (scores round))\<rparr>
            else round)
         (rounds (gameState svc))
   \<and> players (gameState (updateScore rid pid v svc)) =
       map (\<lambda>p. if isOut p then p
                 else if calculatePlayerTotal (gameState (updateScore rid pid v svc)) (p_id p)
                           > maxPoints (settings (gameState svc))
                 then p\<lparr>isOut := True, originalColumnOrder := Some (columnOrder p)\<rparr>
                 else p)
           (players (gameState svc))
   \<and> isGameOver (gameState (updateScore rid pid v svc)) =
       (isGameOver (gameState svc) \<or>
        (list_ex (\<lambda>p. \<not> isOut p \<and>
                       calculatePlayerTotal (gameState (updateScore rid pid v svc)) (p_id p)
                         > maxPoints (settings (gameState svc)))
                 (players (gameState svc)) \<and>
         length (activePlayers (gameState (updateScore rid pid v svc))) \<le> 1))
   \<and> gameWinnerId (gameState (updateScore rid pid v svc)) =
       (if list_ex (\<lambda>p. \<not> isOut p \<and>
                         calculatePlayerTotal (gameState (updateScore rid pid v svc)) (p_id p)
                           > maxPoints (settings (gameState svc)))
                   (players (gameState svc)) \<and>
           length (activePlayers (gameState (updateScore rid pid v svc))) = 1
        then Some (p_id (activePlayers (gameState (updateScore rid pid v svc)) ! 0))
        else gameWinnerId (gameState svc))
   \<and> settings (gameState (updateScore rid pid v svc)) = settings (gameState svc)
   \<and> currentOpenCardPlayerIndex (gameState (updateScore rid pid v svc)) =
       currentOpenCardPlayerIndex (gameState svc)
   \<and> removedPlayers (gameState (updateScore rid pid v svc)) = removedPlayers (gameState svc)
   \<and> playersEligibleForRejoin (updateScore rid pid v svc) = playersEligibleForRejoin svc"
proof -
  define st1 where "st1 = (gameState svc)\<lparr>rounds :=
       map (\<lambda>round.
              if r_id round = rid
              then round\<lparr>scores := map (\<lambda>s. if playerId s = pid then s\<lparr>score := v\<rparr> else s)
                                         (scores round),
                         winnerId := findWinner
                           (map (\<lambda>s. if playerId s = pid then s\<lparr>score := v\<rparr> else s)
                                (scores round))\<rparr>
              else round)
           (rounds (gameState svc))\<rparr>"
  have g: "gameState (updateScore rid pid v svc) = snd (checkPlayersOut st1)"
    by (simp add: updateScore_gameState st1_def)
  have t: "calculatePlayerTotal (snd (checkPlayersOut st1)) q = calculatePlayerTotal st1 q" for q
    by (rule calculatePlayerTotal_cong_rounds) simp
  have s: "settings st1 = settings (gameState svc)" "players st1 = players (gameState svc)"
    "isGameOver st1 = isGameOver (gameState svc)" "gameWinnerId st1 = gameWinnerId (gameState svc)"
    "currentOpenCardPlayerIndex st1 = currentOpenCardPlayerIndex (gameState svc)"
    "removedPlayers st1 = removedPlayers (gameState svc)"
    by (simp_all add: st1_def)
  have 1: "rounds (snd (checkPlayersOut st1)) = rounds st1"
    by simp
  have 2: "players (snd (checkPlayersOut st1)) =
       map (\<lambda>p. if isOut p then p
                 else if calculatePlayerTotal st1 (p_id p) > maxPoints (settings (gameState svc))
                 then p\<lparr>isOut := True, originalColumnOrder := Some (columnOrder p)\<rparr>
                 else p)
           (players (gameState svc))"
    using players_snd_checkPlayersOut [of st1] by (simp add: s)
  have 3: "playersEligibleForRejoin (updateScore rid pid v svc) = playersEligibleForRejoin svc"
    by (simp add: updateScore_def Let_def)
  note f = checkPlayersOut_flags [of st1, unfolded s]
  note o = other_fields_checkPlayersOut [of st1, unfolded s]
  show ?thesis
    unfolding g t
    apply (intro conjI)
           apply (simp add: st1_def)
          apply (rule 2)
         apply (rule f(1))
        apply (rule f(2))
       apply (rule o(1))
      apply (rule o(2))
     apply (rule o(3))
    apply (rule 3)
    done
qed


theorem C3_updateScore_edits_then_eliminates_witness:
  "map scores (rounds (gameState (updateScore 1 ''b2'' 150 svcRound1))) =
     [[\<lparr>playerId = ''a1'', score = 0\<rparr>, \<lparr>playerId = ''b2'', score = 150\<rparr>,
       \<lparr>playerId = ''c3'', score = 110\<rparr>]]
   \<and> map (\<lambda>p. (p_id p, isOut p, originalColumnOrder p))
         (players (gameState (updateScore 1 ''b2'' 150 svcRound1))) =
       [(''a1'', False, None), (''b2'', True, Some 1), (''c3'', True, Some 2)]
   \<and> isGameOver (gameState svcRound1) = False
   \<and> isGameOver (gameState (updateScore 1 ''b2'' 150 svcRound1)) = True
   \<and> gameWinnerId (gameState (updateScore 1 ''b2'' 150 svcRound1)) = Some ''a1''
   \<and> map scores (rounds (gameState (updateScore 1 ''c3'' 10 svcRound1))) =
     [[\<lparr>playerId = ''a1'', score = 0\<rparr>, \<lparr>playerId = ''b2'', score = 40\<rparr>,
       \<lparr>playerId = ''c3'', score = 10\<rparr>]]
   \<and> map (\<lambda>p. (p_id p, isOut p)) (players (gameState (updateScore 1 ''c3'' 10 svcRound1))) =
       [(''a1'', False), (''b2'', False), (''c3'', True)]
   \<and> isGameOver (gameState (updateScore 1 ''c3'' 10 svcRound1)) = False
   \<and> gameWinnerId (gameState (updateScore 1 ''c3'' 10 svcRound1)) = None"
proof -
  note B = C3_updateScore_edits_then_eliminates [of 1 "''b2''" 150 svcRound1]
  note C = C3_updateScore_edits_then_eliminates [of 1 "''c3''" 10 svcRound1]
  have rb: "rounds (gameState (updateScore 1 ''b2'' 150 svcRound1)) =
     [\<lparr>r_id = 1,
       scores = [\<lparr>playerId = ''a1'', score = 0\<rparr>, \<lparr>playerId = ''b2'', score = 150\<rparr>,
                 \<lparr>playerId = ''c3'', score = 110\<rparr>],
       winnerId = Some ''a1'', timestamp = 1000\<rparr>]"
    using B by (simp add: svcRound1_eq round1_def findWinner_def orNull_def)
  have rc: "rounds (gameState (updateScore 1 ''c3'' 10 svcRound1)) =
     [\<lparr>r_id = 1,
       scores = [\<lparr>playerId = ''a1'', score = 0\<rparr>, \<lparr>playerId = ''b2'', score = 40\<rparr>,
                 \<lparr>playerId = ''c3'', score = 10\<rparr>],
       winnerId = Some ''a1'', timestamp = 1000\<rparr>]"
    using C by (simp add: svcRound1_eq round1_def findWinner_def orNull_def)
  have tb: "calculatePlayerTotal (gameState (updateScore 1 ''b2'' 150 svcRound1)) ''a1'' = 0"
    "calculatePlayerTotal (gameState (updateScore 1 ''b2'' 150 svcRound1)) ''b2'' = 150"
    by (simp_all add: calculatePlayerTotal_def findScore_def rb)
  have tc: "calculatePlayerTotal (gameState (updateScore 1 ''c3'' 10 svcRound1)) ''a1'' = 0"
    "calculatePlayerTotal (gameState (updateScore 1 ''c3'' 10 svcRound1)) ''b2'' = 40"
    by (simp_all add: calculatePlayerTotal_def findScore_def rc)
  have pb: "players (gameState (updateScore 1 ''b2'' 150 svcRound1)) =
      [pA, pB\<lparr>isOut := True, originalColumnOrder := Some 1\<rparr>,
       pC\<lparr>isOut := True, originalColumnOrder := Some 2\<rparr>]"
    using B tb by (simp add: svcRound1_eq pA_def pB_def pC_def)
  have pc: "players (gameState (updateScore 1 ''c3'' 10 svcRound1)) =
      [pA, pB, pC\<lparr>isOut := True, originalColumnOrder := Some 2\<rparr>]"
    using C tc by (simp add: svcRound1_eq pA_def pB_def pC_def)
  have ab: "activePlayers (gameState (updateScore 1 ''b2'' 150 svcRound1)) = [pA]"
    by (simp add: activePlayers_def pb pA_def pB_def pC_def)
  have gb: "isGameOver (gameState (updateScore 1 ''b2'' 150 svcRound1)) = True"
    "gameWinnerId (gameState (updateScore 1 ''b2'' 150 svcRound1)) = Some ''a1''"
    using B tb ab by (simp_all add: svcRound1_eq pA_def pB_def pC_def)
  have gc: "isGameOver (gameState (updateScore 1 ''c3'' 10 svcRound1)) = False"
    "gameWinnerId (gameState (updateScore 1 ''c3'' 10 svcRound1)) = None"
    using C tc by (simp_all add: svcRound1_eq pA_def pB_def pC_def)
  have g0: "isGameOver (gameState svcRound1) = False"
    by (simp add: svcRound1_eq)
  show ?thesis
    using gb gc g0 by (simp add: rb rc pb pc pA_def pB_def pC_def)
qed

section \<open>C4: deleting a round\<close>

lemma svcGameOver_eq:
  "svcGameOver =
     \<lparr>gameState =
        \<lparr>settings = \<lparr>maxPoints = 101, dropPoints = 20\<rparr>,
         players = [pA, pB\<lparr>isOut := True, originalColumnOrder := Some 1\<rparr>,
                    pC\<lparr>isOut := True, originalColumnOrder := Some 2\<rparr>],
         rounds = [\<lparr>r_id = 1, scores = roundBC, winnerId = Some ''a1'', timestamp = 1000\<rparr>],
         currentOpenCardPlayerIndex = 0, isGameStarted = True, isGameOver = True,
         gameWinnerId = Some ''a1'', removedPlayers = []\<rparr>,
      playersEligibleForRejoin = [''b2'', ''c3'']\<rparr>"
  by (simp add: svcGameOver_def addRound_def svcABC_def roundBC_def pA_def pB_def pC_def
      checkPlayersOut_def Let_def calculatePlayerTotal_def findScore_def findWinner_def orNull_def
      checkGameOver_def activePlayers_def advanceOpenCard_def js_rem_def)

lemma rounds_recalculatePlayerStatuses [simp]:
  "rounds (recalculatePlayerStatuses st) = rounds st"
  by (simp add: recalculatePlayerStatuses_def Let_def)

lemma settings_recalculatePlayerStatuses [simp]:
  "settings (recalculatePlayerStatuses st) = settings st"
  by (simp add: recalculatePlayerStatuses_def Let_def)

lemma isOut_reassignOrder [simp]: "map isOut (reassignOrder n ps) = map isOut ps"
  by (induction ps arbitrary: n) simp_all

lemma p_id_reassignOrder [simp]: "map p_id (reassignOrder n ps) = map p_id ps"
  by (induction ps arbitrary: n) simp_all

lemma columnOrder_reassignOrder:
  "map columnOrder (filter (\<lambda>p. \<not> isOut p) (reassignOrder n ps)) =
     map (\<lambda>i. n + int i) [0..<length (filter (\<lambda>p. \<not> isOut p) ps)]"
proof (induction ps arbitrary: n)
  case Nil
  then show ?case by simp
next
  case (Cons p ps)
  show ?case
  proof (cases "isOut p")
    case True
    then show ?thesis using Cons.IH [of n] by simp
  next
    case False
    have "map (\<lambda>i. n + int i) [0..<Suc k] = n # map (\<lambda>i. (n + 1) + int i) [0..<k]" for k
      by (simp add: upt_rec [of 0] map_Suc_upt [symmetric] del: upt_Suc)
    then show ?thesis using False Cons.IH [of "n + 1"] by simp
  qed
qed

text \<open>
  The parts of claim C4 that hold for every state: the remaining rounds keep their order
  and contents and are numbered \<open>1..N\<close> (\<open>deleteRound_renumbers\<close>), and afterwards every
  player is out exactly when the recomputed total exceeds the ceiling
  (\<open>deleteRound_statuses\<close>).
\<close>

lemma deleteRound_rounds:
  "rounds (gameState (deleteRound rid svc)) =
     map (\<lambda>(index, round). round\<lparr>r_id := int index + 1\<rparr>)
         (enumerate 0 (filter (\<lambda>r. r_id r \<noteq> rid) (rounds (gameState svc))))"
  by (simp add: deleteRound_def Let_def)

lemma map_fst_enumerate_fun:
  "map (\<lambda>x. f (fst x)) (enumerate n xs) = map f [n..<n + length xs]"
  by (induction xs arbitrary: n) (simp_all add: upt_conv_Cons del: upt_Suc)

lemma map_snd_enumerate_fun: "map (\<lambda>x. g (snd x)) (enumerate n xs) = map g xs"
  by (induction xs arbitrary: n) simp_all

lemma renumber_r_id:
  "map r_id (map (\<lambda>(index, round). round\<lparr>r_id := int index + 1\<rparr>) (enumerate 0 xs)) =
     map (\<lambda>i. int i + 1) [0..<length xs]"
  using map_fst_enumerate_fun [of "\<lambda>i. int i + 1" 0 xs] by (simp add: split_beta comp_def)

lemma renumber_scores:
  "map scores (map (\<lambda>(index, round). round\<lparr>r_id := int index + 1\<rparr>) (enumerate 0 xs)) =
     map scores xs"
  using map_snd_enumerate_fun [of scores 0 xs] by (simp add: split_beta comp_def)

lemma deleteRound_renumbers:
  "map r_id (rounds (gameState (deleteRound rid svc))) =
     map (\<lambda>i. int i + 1) [0..<length (rounds (gameState (deleteRound rid svc)))]
   \<and> map scores (rounds (gameState (deleteRound rid svc))) =
       map scores (filter (\<lambda>r. r_id r \<noteq> rid) (rounds (gameState svc)))"
  unfolding deleteRound_rounds renumber_r_id renumber_scores by simp

lemma recalculatePlayerStatuses_isOut:
  "map isOut (players (recalculatePlayerStatuses st)) =
     map (\<lambda>p. calculatePlayerTotal st (p_id p) > maxPoints (settings st)) (players st)"
  by (auto simp: recalculatePlayerStatuses_def Let_def list_ex_iff comp_def)

lemma recalculatePlayerStatuses_p_id:
  "map p_id (players (recalculatePlayerStatuses st)) = map p_id (players st)"
  by (auto simp: recalculatePlayerStatuses_def Let_def list_ex_iff comp_def)

lemma deleteRound_statuses:
  "map isOut (players (gameState (deleteRound rid svc))) =
     map (\<lambda>p. calculatePlayerTotal (gameState (deleteRound rid svc)) (p_id p)
                 > maxPoints (settings (gameState svc)))
         (players (gameState svc))"
proof -
  define st1 where "st1 = (gameState svc)\<lparr>rounds :=
     map (\<lambda>(index, round). round\<lparr>r_id := int index + 1\<rparr>)
         (enumerate 0 (filter (\<lambda>r. r_id r \<noteq> rid) (rounds (gameState svc))))\<rparr>"
  have g: "gameState (deleteRound rid svc) = recalculatePlayerStatuses st1"
    by (simp add: deleteRound_def Let_def st1_def)
  have t: "calculatePlayerTotal (recalculatePlayerStatuses st1) q = calculatePlayerTotal st1 q" for q
    by (rule calculatePlayerTotal_cong_rounds) simp
  show ?thesis
    unfolding g t using recalculatePlayerStatuses_isOut [of st1] by (simp add: st1_def)
qed

text \<open>
  Claim C4, its last part, evaluated on the code: a first round eliminates Bob and Carol,
  so the game is over with Alice as winner.  Deleting that round leaves no rounds, makes
  all three players active again in columns 0, 1 and 2, and yet \<open>isGameOver\<close> is still
  set and Alice is still recorded as the winner: \<open>checkGameOver\<close> only ever sets the
  flag.
\<close>

theorem C4_deleteRound_keeps_game_over:
  "isGameOver (gameState svcGameOver) = True
   \<and> map isOut (players (gameState svcGameOver)) = [False, True, True]
   \<and> rounds (gameState (deleteRound 1 svcGameOver)) = []
   \<and> map isOut (players (gameState (deleteRound 1 svcGameOver))) = [False, False, False]
   \<and> map columnOrder (activePlayers (gameState (deleteRound 1 svcGameOver))) = [0, 1, 2]
   \<and> isGameOver (gameState (deleteRound 1 svcGameOver)) = True
   \<and> gameWinnerId (gameState (deleteRound 1 svcGameOver)) = Some ''a1''"
  by (simp add: svcGameOver_eq deleteRound_def recalculatePlayerStatuses_def Let_def
      pA_def pB_def pC_def calculatePlayerTotal_def checkGameOver_def activePlayers_def)

section \<open>Rejoining: the entry in the last round\<close>

lemma svcABC_reachable:
  "svcABC =
     snd (addPlayer '' Carol'' ''c3''
       (snd (addPlayer ''Bob '' ''b2''
         (snd (addPlayer ''Alice'' ''a1'' (initializeGame 101 20 initialService))))))"
  by (simp add: svcABC_def pA_def pB_def pC_def addPlayer_def initializeGame_def
      initialService_def DEFAULT_GAME_STATE_def isPlayerNameTaken_def findRemovedPlayer_def
      trim_def toLowerCase_def lowerChar_def isWhitespace_def Let_def)

lemma svcNoEntry_eq:
  "svcNoEntry =
     \<lparr>gameState =
        \<lparr>settings = \<lparr>maxPoints = 40, dropPoints = 20\<rparr>,
         players = [pA, pB, pC\<lparr>isOut := True, originalColumnOrder := Some 2\<rparr>],
         rounds = [\<lparr>r_id = 1, scores = roundC50, winnerId = Some ''a1'', timestamp = 1000\<rparr>,
                   \<lparr>r_id = 2, scores = roundAB, winnerId = Some ''a1'', timestamp = 2000\<rparr>],
         currentOpenCardPlayerIndex = 0, isGameStarted = True, isGameOver = False,
         gameWinnerId = None, removedPlayers = []\<rparr>,
      playersEligibleForRejoin = [''c3'']\<rparr>"
  by (simp add: svcNoEntry_def svcABC_def roundC50_def roundAB_def eval_defs)

text \<open>
  Outside the reachable states: a submission that omits an active player.  Carol is then
  eliminated without an entry in the last round; \<open>rejoinPlayer\<close> finds nothing to adjust
  and she is active again with her total still 50, where the target is 16.
\<close>

lemma rejoinPlayer_without_entry:
  "''c3'' \<in> set (playersEligibleForRejoin svcNoEntry)
   \<and> map (\<lambda>p. (p_id p, isOut p)) (players (gameState svcNoEntry)) =
        [(''a1'', False), (''b2'', False), (''c3'', True)]
   \<and> getHighestActiveScore (gameState svcNoEntry) None + 1 = 16
   \<and> calculatePlayerTotal (gameState svcNoEntry) ''c3'' = 50
   \<and> calculatePlayerTotal (gameState (rejoinPlayer ''c3'' svcNoEntry)) ''c3'' = 50
   \<and> map (\<lambda>p. (p_id p, isOut p)) (players (gameState (rejoinPlayer ''c3'' svcNoEntry))) =
        [(''a1'', False), (''b2'', False), (''c3'', False)]"
  by (simp add: svcNoEntry_eq rejoinPlayer_def getHighestActiveScore_def at_def
      roundC50_def roundAB_def eval_defs)

lemma at_last: "rs \<noteq> [] \<Longrightarrow> at rs (int (length rs) - 1) = Some (last rs)"
  by (cases rs rule: rev_cases) (simp_all add: at_def nth_append)

lemma map_enumerate_below:
  "length xs \<le> k \<Longrightarrow>
     map (\<lambda>(index, r). if int index = int k then f r else r) (enumerate 0 xs) = xs"
proof -
  assume k: "length xs \<le> k"
  have "map (\<lambda>(index, r). if int index = int k then f r else r) (enumerate 0 xs) =
          map snd (enumerate 0 xs)"
    using k by (intro map_cong refl) (auto simp: in_set_enumerate_eq)
  then show ?thesis by simp
qed

lemma map_last_enumerate:
  assumes "rs \<noteq> []"
  shows "map (\<lambda>(index, r). if int index = int (length rs) - 1 then f r else r) (enumerate 0 rs) =
           butlast rs @ [f (last rs)]"
proof -
  obtain xs x where rs: "rs = xs @ [x]"
    using assms by (cases rs rule: rev_cases) auto
  have "int (length rs) - 1 = int (length xs)"
    by (simp add: rs)
  then show ?thesis
    using map_enumerate_below [of xs "length xs" f] by (simp add: rs enumerate_append_eq)
qed

lemma find_map_same:
  "(\<And>x. P (g x) = P x) \<Longrightarrow> find P (map g xs) = map_option g (find P xs)"
  by (induction xs) simp_all


lemma rejoinPlayer_rounds:
  assumes "find (\<lambda>p. p_id p = pid) (players (gameState svc)) = Some pl"
    and "isOut pl" and "pid \<in> set (playersEligibleForRejoin svc)"
    and "rounds (gameState svc) \<noteq> []"
  shows "rounds (gameState (rejoinPlayer pid svc)) =
           butlast (rounds (gameState svc)) @
           [(last (rounds (gameState svc)))
              \<lparr>scores :=
                 map (\<lambda>s. if playerId s = pid
                           then s\<lparr>score := getHighestActiveScore (gameState svc) None + 1
                                             - calculatePlayerTotal (gameState svc) pid
                                             + scoreIn (last (rounds (gameState svc))) pid\<rparr>
                           else s)
                     (scores (last (rounds (gameState svc))))\<rparr>]"
proof -
  let ?rs = "rounds (gameState svc)"
  let ?n = "getHighestActiveScore (gameState svc) None + 1
              - calculatePlayerTotal (gameState svc) pid + scoreIn (last ?rs) pid"
  have l: "(case at ?rs (int (length ?rs) - 1) of
               None \<Rightarrow> 0
             | Some lastRound \<Rightarrow>
                 (case findScore lastRound pid of None \<Rightarrow> 0 | Some s \<Rightarrow> orZero (score s))) =
           scoreIn (last ?rs) pid"
    using assms(4) by (simp add: at_last scoreIn_def cong: option.case_cong)
  have "rounds (gameState (rejoinPlayer pid svc)) =
          map (\<lambda>(index, round).
                 if int index = int (length ?rs) - 1
                 then round\<lparr>scores :=
                        map (\<lambda>s. if playerId s = pid then s\<lparr>score := ?n\<rparr> else s) (scores round)\<rparr>
                 else round)
              (enumerate 0 ?rs)"
    unfolding rejoinPlayer_def Let_def l using assms(1-3) by simp
  then show ?thesis
    using map_last_enumerate [OF assms(4)] by simp
qed

lemma findScore_update:
  "findScore (r\<lparr>scores := map (\<lambda>s. if playerId s = pid then s\<lparr>score := v\<rparr> else s) (scores r)\<rparr>) q =
     map_option (\<lambda>s. if playerId s = pid then s\<lparr>score := v\<rparr> else s) (findScore r q)"
  unfolding findScore_def by (simp add: find_map_same)

lemma find_Some_P: "find P xs = Some x \<Longrightarrow> P x"
  by (induction xs) (auto split: if_splits)

lemma scoreIn_update_other:
  "q \<noteq> pid \<Longrightarrow>
     scoreIn (r\<lparr>scores := map (\<lambda>s. if playerId s = pid then s\<lparr>score := v\<rparr> else s) (scores r)\<rparr>) q =
       scoreIn r q"
  unfolding scoreIn_def findScore_update
  by (auto simp: findScore_def split: option.splits dest: find_Some_P)

lemma scoreIn_update_same:
  "findScore r pid = Some e \<Longrightarrow>
     scoreIn (r\<lparr>scores := map (\<lambda>s. if playerId s = pid then s\<lparr>score := v\<rparr> else s) (scores r)\<rparr>) pid = v"
  unfolding scoreIn_def findScore_update
  by (auto simp: findScore_def split: option.splits dest: find_Some_P)

text \<open>
  Where the player has an entry in the last round, \<open>rejoinPlayer\<close> makes the player's total
  the highest active total plus one and touches nothing else in the ledger.
\<close>

lemma rejoinPlayer_adjusts_entry:
  assumes "find (\<lambda>p. p_id p = pid) (players (gameState svc)) = Some pl"
    and "isOut pl" and "pid \<in> set (playersEligibleForRejoin svc)"
    and "rounds (gameState svc) \<noteq> []"
    and "findScore (last (rounds (gameState svc))) pid = Some e"
  shows "calculatePlayerTotal (gameState (rejoinPlayer pid svc)) pid =
           getHighestActiveScore (gameState svc) None + 1
         \<and> length (rounds (gameState (rejoinPlayer pid svc))) = length (rounds (gameState svc))
         \<and> butlast (rounds (gameState (rejoinPlayer pid svc))) = butlast (rounds (gameState svc))
         \<and> map playerId (scores (last (rounds (gameState (rejoinPlayer pid svc))))) =
             map playerId (scores (last (rounds (gameState svc))))
         \<and> filter (\<lambda>s. playerId s \<noteq> pid) (scores (last (rounds (gameState (rejoinPlayer pid svc))))) =
             filter (\<lambda>s. playerId s \<noteq> pid) (scores (last (rounds (gameState svc))))
         \<and> (\<forall>q. q \<noteq> pid \<longrightarrow>
               calculatePlayerTotal (gameState (rejoinPlayer pid svc)) q =
                 calculatePlayerTotal (gameState svc) q)"
proof -
  let ?rs = "rounds (gameState svc)"
  let ?v = "getHighestActiveScore (gameState svc) None + 1
              - calculatePlayerTotal (gameState svc) pid + scoreIn (last ?rs) pid"
  let ?upd = "\<lambda>s. if playerId s = pid then s\<lparr>score := ?v\<rparr> else s"
  let ?r' = "(last ?rs)\<lparr>scores := map ?upd (scores (last ?rs))\<rparr>"
  have r: "rounds (gameState (rejoinPlayer pid svc)) = butlast ?rs @ [?r']"
    by (rule rejoinPlayer_rounds [OF assms(1-4)])
  have split: "(\<Sum>x\<leftarrow>?rs. scoreIn x q) = (\<Sum>x\<leftarrow>butlast ?rs. scoreIn x q) + scoreIn (last ?rs) q" for q
  proof -
    have "?rs = butlast ?rs @ [last ?rs]" using assms(4) by simp
    then have "(\<Sum>x\<leftarrow>?rs. scoreIn x q) = (\<Sum>x\<leftarrow>butlast ?rs @ [last ?rs]. scoreIn x q)"
      by simp
    then show ?thesis by simp
  qed
  have t: "calculatePlayerTotal (gameState (rejoinPlayer pid svc)) q =
             (\<Sum>x\<leftarrow>butlast ?rs. scoreIn x q) + scoreIn ?r' q" for q
    by (simp add: calculatePlayerTotal_sum r)
  have same: "scoreIn ?r' pid = ?v"
    by (rule scoreIn_update_same [OF assms(5)])
  have 1: "calculatePlayerTotal (gameState (rejoinPlayer pid svc)) pid =
             getHighestActiveScore (gameState svc) None + 1"
    unfolding t same using split [of pid] by (simp add: calculatePlayerTotal_sum)
  have 6: "calculatePlayerTotal (gameState (rejoinPlayer pid svc)) q =
             calculatePlayerTotal (gameState svc) q" if "q \<noteq> pid" for q
    unfolding t using split [of q] scoreIn_update_other [OF that]
    by (simp add: calculatePlayerTotal_sum)
  have 2: "length (rounds (gameState (rejoinPlayer pid svc))) = length ?rs"
    using assms(4) by (simp add: r)
  have 3: "butlast (rounds (gameState (rejoinPlayer pid svc))) = butlast ?rs"
    by (simp add: r)
  have 4: "map playerId (scores (last (rounds (gameState (rejoinPlayer pid svc))))) =
             map playerId (scores (last ?rs))"
    by (simp add: r comp_def cong: if_cong)
  have 5: "filter (\<lambda>s. playerId s \<noteq> pid) (scores (last (rounds (gameState (rejoinPlayer pid svc))))) =
             filter (\<lambda>s. playerId s \<noteq> pid) (scores (last ?rs))"
  proof -
    have "filter (\<lambda>s. playerId s \<noteq> pid) (map (\<lambda>s. if playerId s = pid then s\<lparr>score := v\<rparr> else s) xs) =
            filter (\<lambda>s. playerId s \<noteq> pid) xs" for v xs
      by (induction xs) simp_all
    then show ?thesis by (simp add: r)
  qed
  show ?thesis using 1 2 3 4 5 6 by blast
qed


section \<open>C6: dealer and open-card player\<close>

text \<open>
  Where the rotation index lies within the active players, the dealer is the player just
  before the open-card player, wrapping from the first to the last; below two active
  players there is no dealer; and the example of the specification evaluates as stated.
\<close>

lemma dealer_example:
  "map p_id (activePlayers stABCD) = [''a1'', ''b2'', ''c3'', ''d4'']
   \<and> currentOpenCardPlayer stABCD = Some pC
   \<and> currentDealer stABCD = Some pB
   \<and> currentOpenCardPlayer (advanceOpenCard stABCD) = Some pD
   \<and> currentDealer (advanceOpenCard stABCD) = Some pC"
  by (simp add: stABCD_def svcABC_def activePlayers_def currentOpenCardPlayer_def
      currentDealer_def advanceOpenCard_def js_rem_def at_def Let_def pA_def pB_def pC_def pD_def)

lemma dealer_in_range:
  assumes "2 \<le> length (activePlayers st)"
    and "0 \<le> currentOpenCardPlayerIndex st"
    and "currentOpenCardPlayerIndex st < int (length (activePlayers st))"
  shows "currentOpenCardPlayer st = Some (activePlayers st ! nat (currentOpenCardPlayerIndex st))"
    and "currentDealer st =
           Some (activePlayers st !
                   nat ((currentOpenCardPlayerIndex st - 1) mod int (length (activePlayers st))))"
proof -
  show "currentOpenCardPlayer st = Some (activePlayers st ! nat (currentOpenCardPlayerIndex st))"
    using assms by (auto simp: currentOpenCardPlayer_def at_def Let_def)
  show "currentDealer st =
           Some (activePlayers st !
                   nat ((currentOpenCardPlayerIndex st - 1) mod int (length (activePlayers st))))"
  proof (cases "currentOpenCardPlayerIndex st = 0")
    case True
    have "0 < int (length (activePlayers st))"
      using assms(1) by linarith
    then have "(- 1) mod int (length (activePlayers st)) = int (length (activePlayers st)) - 1"
      by (rule zmod_minus1)
    then show ?thesis using assms True by (simp add: currentDealer_def at_def Let_def)
  next
    case False
    then have "(currentOpenCardPlayerIndex st - 1) mod int (length (activePlayers st)) =
                 currentOpenCardPlayerIndex st - 1"
      using assms by simp
    then show ?thesis using assms False by (simp add: currentDealer_def at_def Let_def)
  qed
qed

lemma dealer_none_below_two: "length (activePlayers st) < 2 \<Longrightarrow> currentDealer st = None"
  by (simp add: currentDealer_def Let_def)

lemma svcOpenAtDave_eq:
  "svcOpenAtDave =
     \<lparr>gameState =
        \<lparr>settings = \<lparr>maxPoints = 101, dropPoints = 20\<rparr>,
         players = [pA, pB, pC, pD],
         rounds = [\<lparr>r_id = 1, scores = roundABCD, winnerId = Some ''a1'', timestamp = 1000\<rparr>],
         currentOpenCardPlayerIndex = 3, isGameStarted = True, isGameOver = False,
         gameWinnerId = None, removedPlayers = []\<rparr>,
      playersEligibleForRejoin = []\<rparr>"
  by (simp add: svcOpenAtDave_def stABCD_def svcABC_def roundABCD_def pD_def eval_defs)

text \<open>
  Claim C6 evaluated on the code where the rotation index lies beyond the active
  players.  With Carol holding the open card (index 2) Bob deals; once Carol is removed
  the index is still 2, the open card falls back to Alice, the first active player, and
  \<open>currentDealer\<close> answers none although two players are active, where the player
  before Alice, wrapping round, is Bob.  Likewise with four players: D holds the open
  card and C deals; D goes out through an edit, the open card falls back to A, and there
  is no dealer, where the player before A is C.
\<close>

theorem C6_no_dealer_beyond_active_players:
  "currentOpenCardPlayerIndex (gameState svcOpenAtCarol) = 2
   \<and> currentOpenCardPlayer (gameState svcOpenAtCarol) = Some pC
   \<and> currentDealer (gameState svcOpenAtCarol) = Some pB
   \<and> activePlayers (gameState svcCarolRemoved) = [pA, pB]
   \<and> currentOpenCardPlayerIndex (gameState svcCarolRemoved) = 2
   \<and> currentOpenCardPlayer (gameState svcCarolRemoved) = Some pA
   \<and> currentDealer (gameState svcCarolRemoved) = None
   \<and> currentOpenCardPlayer (gameState svcOpenAtDave) = Some pD
   \<and> currentDealer (gameState svcOpenAtDave) = Some pC
   \<and> activePlayers (gameState svcDaveOut) = [pA, pB, pC]
   \<and> currentOpenCardPlayerIndex (gameState svcDaveOut) = 3
   \<and> currentOpenCardPlayer (gameState svcDaveOut) = Some pA
   \<and> currentDealer (gameState svcDaveOut) = None"
proof -
  have 1: "currentOpenCardPlayerIndex (gameState svcOpenAtCarol) = 2
      \<and> currentOpenCardPlayer (gameState svcOpenAtCarol) = Some pC
      \<and> currentDealer (gameState svcOpenAtCarol) = Some pB
      \<and> activePlayers (gameState svcCarolRemoved) = [pA, pB]
      \<and> currentOpenCardPlayerIndex (gameState svcCarolRemoved) = 2
      \<and> currentOpenCardPlayer (gameState svcCarolRemoved) = Some pA
      \<and> currentDealer (gameState svcCarolRemoved) = None"
    by (simp add: svcCarolRemoved_def svcOpenAtCarol_def svcABC_def setOpenCardPlayer_def
        removePlayer_def activePlayers_def currentOpenCardPlayer_def currentDealer_def at_def
        checkGameOver_def Let_def pA_def pB_def pC_def)
  have 2: "currentOpenCardPlayer (gameState svcOpenAtDave) = Some pD
      \<and> currentDealer (gameState svcOpenAtDave) = Some pC
      \<and> activePlayers (gameState svcDaveOut) = [pA, pB, pC]
      \<and> currentOpenCardPlayerIndex (gameState svcDaveOut) = 3
      \<and> currentOpenCardPlayer (gameState svcDaveOut) = Some pA
      \<and> currentDealer (gameState svcDaveOut) = None"
    by (simp add: svcDaveOut_def svcOpenAtDave_eq updateScore_def roundABCD_def
        currentOpenCardPlayer_def currentDealer_def at_def pD_def eval_defs)
  show ?thesis using 1 2 by blast
qed

section \<open>C7: the rejoin window\<close>

lemma fst_checkPlayersOut:
  "fst (checkPlayersOut st) =
     map p_id (filter (\<lambda>p. \<not> isOut p \<and> calculatePlayerTotal st (p_id p) > maxPoints (settings st))
                      (players st))"
  by (simp add: checkPlayersOut_def Let_def)

lemma addRound_eligible:
  "playersEligibleForRejoin (addRound scs now svc) =
     map p_id
       (filter (\<lambda>p. \<not> isOut p \<and>
                     calculatePlayerTotal (gameState (addRound scs now svc)) (p_id p)
                       > maxPoints (settings (gameState svc)))
               (players (gameState svc)))"
proof -
  define st1 where "st1 = (gameState svc)\<lparr>rounds := rounds (gameState svc) @
         [\<lparr>r_id = int (length (rounds (gameState svc))) + 1, scores = scs,
           winnerId = findWinner scs, timestamp = now\<rparr>]\<rparr>"
  have e: "playersEligibleForRejoin (addRound scs now svc) = fst (checkPlayersOut st1)"
    by (simp add: addRound_def Let_def split_beta st1_def)
  have g: "gameState (addRound scs now svc) = advanceOpenCard (snd (checkPlayersOut st1))"
    by (simp add: addRound_def Let_def split_beta st1_def)
  have t: "calculatePlayerTotal (gameState (addRound scs now svc)) q = calculatePlayerTotal st1 q" for q
    unfolding g by (rule calculatePlayerTotal_cong_rounds) simp
  show ?thesis
    unfolding e t fst_checkPlayersOut by (simp add: st1_def)
qed

lemma canRejoin_eligible:
  "q \<in> set (playersWithTotals svc) \<Longrightarrow> canRejoin q \<Longrightarrow> p_id q \<in> set (playersEligibleForRejoin svc)"
  by (auto simp: playersWithTotals_def Let_def)

lemma out_not_newly_eligible:
  assumes "distinct (map p_id ps)" and "p \<in> set ps" and "isOut p"
  shows "p_id p \<notin> set (map p_id (filter (\<lambda>p. \<not> isOut p \<and> P p) ps))"
proof
  assume "p_id p \<in> set (map p_id (filter (\<lambda>p. \<not> isOut p \<and> P p) ps))"
  then obtain p' where p': "p' \<in> set ps" "\<not> isOut p'" "p_id p' = p_id p"
    by auto
  have "inj_on p_id (set ps)"
    using assms(1) by (simp add: distinct_map)
  then have "p' = p"
    using p'(1,3) assms(2) by (auto dest: inj_onD)
  then show False using p'(2) assms(3) by simp
qed

text \<open>
  Claim C7.  After every \<open>addRound\<close> the rejoin-eligible list is exactly the ids of the
  players who were active before the submission and whose total with the new round
  exceeds the ceiling, whatever the list held before; hence, player ids being unique,
  every player who was already out before the submission has \<open>canRejoin\<close> false in
  \<open>playersWithTotals\<close> afterwards.
\<close>

theorem C7_rejoin_window_closes:
  "playersEligibleForRejoin (addRound scs now svc) =
     map p_id
       (filter (\<lambda>p. \<not> isOut p \<and>
                     calculatePlayerTotal (gameState (addRound scs now svc)) (p_id p)
                       > maxPoints (settings (gameState svc)))
               (players (gameState svc)))
   \<and> (distinct (map p_id (players (gameState svc))) \<longrightarrow>
        (\<forall>p\<in>set (players (gameState svc)). isOut p \<longrightarrow>
           (\<forall>q\<in>set (playersWithTotals (addRound scs now svc)). p_id q = p_id p \<longrightarrow> \<not> canRejoin q)))"
proof (intro conjI impI ballI)
  show "playersEligibleForRejoin (addRound scs now svc) =
     map p_id
       (filter (\<lambda>p. \<not> isOut p \<and>
                     calculatePlayerTotal (gameState (addRound scs now svc)) (p_id p)
                       > maxPoints (settings (gameState svc)))
               (players (gameState svc)))"
    by (rule addRound_eligible)
next
  fix p q
  assume d: "distinct (map p_id (players (gameState svc)))"
    and p: "p \<in> set (players (gameState svc))" "isOut p"
    and q: "q \<in> set (playersWithTotals (addRound scs now svc))" "p_id q = p_id p"
  show "\<not> canRejoin q"
  proof
    assume "canRejoin q"
    then have "p_id p \<in> set (playersEligibleForRejoin (addRound scs now svc))"
      using canRejoin_eligible [OF q(1)] q(2) by simp
    then show False
      unfolding addRound_eligible
      using out_not_newly_eligible [OF d p,
          where P = "\<lambda>p. calculatePlayerTotal (gameState (addRound scs now svc)) (p_id p)
                         > maxPoints (settings (gameState svc))"]
      by simp
  qed
qed

theorem C7_rejoin_window_closes_witness:
  "distinct (map p_id (players (gameState svcRound1)))
   \<and> map (\<lambda>q. (p_id q, isOut q, canRejoin q)) (playersWithTotals svcRound1) =
        [(''a1'', False, False), (''b2'', False, False), (''c3'', True, True)]
   \<and> playersEligibleForRejoin (addRound round2 2000 svcRound1) = []
   \<and> map (\<lambda>q. (p_id q, isOut q, canRejoin q)) (playersWithTotals (addRound round2 2000 svcRound1)) =
        [(''a1'', False, False), (''b2'', False, False), (''c3'', True, False)]"
proof -
  have d: "distinct (map p_id (players (gameState svcRound1)))"
    by (simp add: svcRound1_eq pA_def pB_def pC_def)
  have b: "map (\<lambda>q. (p_id q, isOut q, canRejoin q)) (playersWithTotals svcRound1) =
        [(''a1'', False, False), (''b2'', False, False), (''c3'', True, True)]"
    by (simp add: svcRound1_eq playersWithTotals_def getHighestActiveScore_def round1_def eval_defs)
  have a: "addRound round2 2000 svcRound1 =
     \<lparr>gameState =
        \<lparr>settings = \<lparr>maxPoints = 101, dropPoints = 20\<rparr>,
         players = [pA, pB, pC\<lparr>isOut := True, originalColumnOrder := Some 2\<rparr>],
         rounds = [\<lparr>r_id = 1, scores = round1, winnerId = Some ''a1'', timestamp = 1000\<rparr>,
                   \<lparr>r_id = 2, scores = round2, winnerId = Some ''a1'', timestamp = 2000\<rparr>],
         currentOpenCardPlayerIndex = 0, isGameStarted = True, isGameOver = False,
         gameWinnerId = None, removedPlayers = []\<rparr>,
      playersEligibleForRejoin = []\<rparr>"
    by (simp add: svcRound1_eq round1_def round2_def eval_defs)
  have c: "map (\<lambda>q. (p_id q, isOut q)) (playersWithTotals (addRound round2 2000 svcRound1)) =
        [(''a1'', False), (''b2'', False), (''c3'', True)]"
    unfolding a by (simp add: playersWithTotals_def Let_def pA_def pB_def pC_def)
  from C7_rejoin_window_closes [of round2 2000 svcRound1] d
  have "\<forall>p\<in>set (players (gameState svcRound1)). isOut p \<longrightarrow>
           (\<forall>q\<in>set (playersWithTotals (addRound round2 2000 svcRound1)).
               p_id q = p_id p \<longrightarrow> \<not> canRejoin q)"
    by blast
  then have "\<forall>q\<in>set (playersWithTotals (addRound round2 2000 svcRound1)).
               p_id q = ''c3'' \<longrightarrow> \<not> canRejoin q"
    by (simp add: svcRound1_eq pA_def pB_def pC_def)
  moreover have "map (\<lambda>q. (p_id q, isOut q, canRejoin q)) (playersWithTotals (addRound round2 2000 svcRound1)) =
        [(''a1'', False, False), (''b2'', False, False), (''c3'', True, False)]"
    unfolding a
    by (simp add: playersWithTotals_def getHighestActiveScore_def round1_def round2_def eval_defs)
  ultimately show ?thesis using d b a by simp
qed

section \<open>C8: column order of the active players\<close>

lemma svcBobOut_eq:
  "svcBobOut =
     \<lparr>gameState =
        \<lparr>settings = \<lparr>maxPoints = 101, dropPoints = 20\<rparr>,
         players = [pA, pB\<lparr>isOut := True, originalColumnOrder := Some 1\<rparr>, pC],
         rounds = [\<lparr>r_id = 1, scores = roundB110, winnerId = Some ''a1'', timestamp = 1000\<rparr>],
         currentOpenCardPlayerIndex = 1, isGameStarted = True, isGameOver = False,
         gameWinnerId = None, removedPlayers = []\<rparr>,
      playersEligibleForRejoin = [''b2'']\<rparr>"
  by (simp add: svcBobOut_def svcABC_def roundB110_def eval_defs)

lemma svcBobRejoined_eq:
  "rejoinPlayer ''b2'' svcBobOut =
     \<lparr>gameState =
        \<lparr>settings = \<lparr>maxPoints = 101, dropPoints = 20\<rparr>,
         players = [pA, pB\<lparr>rejoinCount := 1\<rparr>, pC\<lparr>columnOrder := 3\<rparr>],
         rounds = [\<lparr>r_id = 1,
                    scores = [\<lparr>playerId = ''a1'', score = 0\<rparr>, \<lparr>playerId = ''b2'', score = 11\<rparr>,
                              \<lparr>playerId = ''c3'', score = 10\<rparr>],
                    winnerId = Some ''a1'', timestamp = 1000\<rparr>],
         currentOpenCardPlayerIndex = 1, isGameStarted = True, isGameOver = False,
         gameWinnerId = None, removedPlayers = []\<rparr>,
      playersEligibleForRejoin = []\<rparr>"
  by (simp add: svcBobOut_eq rejoinPlayer_def getHighestActiveScore_def at_def roundB110_def
      eval_defs)

text \<open>
  Claim C8 as stated fails.  Eliminating Bob leaves Alice and Carol in columns 0 and 2;
  Bob, offered a rejoin, returns to column 1 and Carol is shifted to column 3, so after
  \<open>rejoinPlayer\<close> the active columns are 0, 1, 3.  And \<open>reorderPlayers\<close> with the partial
  list [Carol, Alice] puts Carol in 0 and Alice in 1 and leaves Bob in 1.
\<close>

theorem C8_contiguous_order_counterexample:
  "map (\<lambda>q. (p_id q, canRejoin q)) (playersWithTotals svcBobOut) =
     [(''a1'', False), (''b2'', True), (''c3'', False)]
   \<and> map columnOrder (activePlayers (gameState svcBobOut)) = [0, 2]
   \<and> \<not> contiguousOrder (gameState svcBobOut)
   \<and> map columnOrder (activePlayers (gameState (rejoinPlayer ''b2'' svcBobOut))) = [0, 1, 3]
   \<and> \<not> contiguousOrder (gameState (rejoinPlayer ''b2'' svcBobOut))
   \<and> map columnOrder
        (activePlayers (gameState (reorderPlayers [''c3'', ''a1''] svcABC))) = [0, 1, 1]
   \<and> \<not> contiguousOrder (gameState (reorderPlayers [''c3'', ''a1''] svcABC))"
proof -
  have 1: "map (\<lambda>q. (p_id q, canRejoin q)) (playersWithTotals svcBobOut) =
     [(''a1'', False), (''b2'', True), (''c3'', False)]"
    by (simp add: svcBobOut_eq playersWithTotals_def getHighestActiveScore_def roundB110_def
        eval_defs)
  have 2: "map columnOrder (activePlayers (gameState svcBobOut)) = [0, 2]"
    by (simp add: svcBobOut_eq activePlayers_def pA_def pB_def pC_def)
  have 3: "\<not> contiguousOrder (gameState svcBobOut)"
    by (simp add: svcBobOut_eq contiguousOrder_def activePlayers_def pA_def pB_def pC_def)
  have 4: "map columnOrder (activePlayers (gameState (rejoinPlayer ''b2'' svcBobOut))) = [0, 1, 3]"
    by (simp add: svcBobRejoined_eq activePlayers_def pA_def pB_def pC_def)
  have 5: "\<not> contiguousOrder (gameState (rejoinPlayer ''b2'' svcBobOut))"
    by (simp add: svcBobRejoined_eq contiguousOrder_def activePlayers_def pA_def pB_def pC_def)
  have 6: "map columnOrder
        (activePlayers (gameState (reorderPlayers [''c3'', ''a1''] svcABC))) = [0, 1, 1]"
    by (simp add: reorderPlayers_def svcABC_def indexOf_def activePlayers_def pA_def pB_def pC_def)
  have 7: "\<not> contiguousOrder (gameState (reorderPlayers [''c3'', ''a1''] svcABC))"
    by (simp add: reorderPlayers_def svcABC_def indexOf_def contiguousOrder_def activePlayers_def
        pA_def pB_def pC_def)
  show ?thesis using 1 2 3 4 5 6 7 by blast
qed


lemma findIndex_ge: "- 1 \<le> findIndex P xs"
  by (induction xs) (simp_all add: Let_def)

lemma findIndex_found: "x \<in> set xs \<Longrightarrow> P x \<Longrightarrow> findIndex P xs \<noteq> - 1"
proof (induction xs)
  case Nil
  then show ?case by simp
next
  case (Cons y ys)
  show ?case
  proof (cases "P y")
    case True
    then show ?thesis by simp
  next
    case False
    with Cons have "findIndex P ys \<noteq> - 1" by auto
    moreover have "- 1 \<le> findIndex P ys" by (rule findIndex_ge)
    ultimately show ?thesis using False by (simp add: Let_def)
  qed
qed

lemma indexOf_found: "x \<in> set xs \<Longrightarrow> indexOf xs x \<noteq> - 1"
  unfolding indexOf_def by (rule findIndex_found) simp_all

lemma indexOf_distinct: "distinct xs \<Longrightarrow> map (indexOf xs) xs = map int [0..<length xs]"
proof (induction xs)
  case Nil
  then show ?case by simp
next
  case (Cons x xs)
  have "map (indexOf (x # xs)) xs = map (\<lambda>y. indexOf xs y + 1) xs"
  proof (rule map_cong [OF refl])
    fix y assume y: "y \<in> set xs"
    then have "y \<noteq> x" using Cons.prems by auto
    moreover have "indexOf xs y \<noteq> - 1" using y by (rule indexOf_found)
    ultimately show "indexOf (x # xs) y = indexOf xs y + 1"
      by (simp add: indexOf_def Let_def)
  qed
  also have "\<dots> = map (\<lambda>i. i + 1) (map (indexOf xs) xs)"
    by simp
  also have "\<dots> = map (\<lambda>i. i + 1) (map int [0..<length xs])"
    using Cons by simp
  also have "\<dots> = map int [Suc 0..<Suc (length xs)]"
    by (simp add: map_Suc_upt [symmetric] del: upt_Suc)
  finally have "map (indexOf (x # xs)) xs = map int [Suc 0..<Suc (length xs)]" .
  moreover have "indexOf (x # xs) x = 0"
    by (simp add: indexOf_def)
  ultimately show ?case
    by (simp add: upt_conv_Cons del: upt_Suc)
qed

lemma sorted_mset_unique:
  fixes xs ys :: "int list"
  assumes "sorted xs" and "sorted ys" and "mset xs = mset ys"
  shows "xs = ys"
proof -
  have "sort ys = xs" using assms(3,1) by (rule properties_for_sort)
  moreover have "sort ys = ys" using assms(2) by (simp add: sort_key_id_if_sorted)
  ultimately show ?thesis by simp
qed

lemma filter_active_map:
  "(\<And>p. isOut (h p) = isOut p) \<Longrightarrow>
     filter (\<lambda>p. \<not> isOut p) (map h ps) = map h (filter (\<lambda>p. \<not> isOut p) ps)"
  by (induction ps) simp_all

lemma reorderPlayers_contiguous:
  assumes d: "distinct (map p_id (players (gameState svc)))"
    and i: "distinct playerIds"
    and s: "set playerIds = p_id ` {p \<in> set (players (gameState svc)). \<not> isOut p}"
  shows "contiguousOrder (gameState (reorderPlayers playerIds svc))"
proof -
  let ?ps = "players (gameState svc)"
  let ?act = "filter (\<lambda>p. \<not> isOut p) ?ps"
  let ?h = "\<lambda>p. let newOrder = indexOf playerIds (p_id p)
                 in if newOrder \<noteq> - 1 then p\<lparr>columnOrder := newOrder\<rparr> else p"
  let ?st' = "gameState (reorderPlayers playerIds svc)"
  have p': "players ?st' = map ?h ?ps"
    by (simp add: reorderPlayers_def Let_def)
  have f: "filter (\<lambda>p. \<not> isOut p) (map ?h ?ps) = map ?h ?act"
    by (rule filter_active_map) (simp add: Let_def)
  have c: "map columnOrder (map ?h ?act) = map (indexOf playerIds) (map p_id ?act)"
  proof -
    have "columnOrder (?h p) = indexOf playerIds (p_id p)" if "p \<in> set ?act" for p
    proof -
      have "p_id p \<in> set playerIds" using that s by auto
      then have "indexOf playerIds (p_id p) \<noteq> - 1" by (rule indexOf_found)
      then show ?thesis by (simp add: Let_def)
    qed
    then show ?thesis by (simp add: comp_def cong: map_cong)
  qed
  have da: "distinct (map p_id ?act)"
    using d by (rule distinct_map_filter)
  have "set (map p_id ?act) = set playerIds"
    using s by auto
  then have m: "mset (map p_id ?act) = mset playerIds"
    using da i by (simp only: set_eq_iff_mset_eq_distinct)
  then have len: "length ?act = length playerIds"
    by (metis length_map size_mset)
  have "mset (map columnOrder (filter (\<lambda>p. \<not> isOut p) (players ?st'))) =
          mset (map (indexOf playerIds) (map p_id ?act))"
    by (simp only: p' f c)
  also have "\<dots> = mset (map (indexOf playerIds) playerIds)"
  proof -
    have e1: "mset (map (indexOf playerIds) (map p_id ?act)) =
                image_mset (indexOf playerIds) (mset (map p_id ?act))"
      by (rule mset_map)
    have e2: "mset (map (indexOf playerIds) playerIds) =
                image_mset (indexOf playerIds) (mset playerIds)"
      by (rule mset_map)
    show ?thesis by (simp only: e1 e2 m)
  qed
  also have "\<dots> = mset (map int [0..<length playerIds])"
    using indexOf_distinct [OF i] by simp
  finally have ms: "mset (map columnOrder (filter (\<lambda>p. \<not> isOut p) (players ?st'))) =
          mset (map int [0..<length playerIds])" .
  have la: "length (activePlayers ?st') = length playerIds"
    by (simp add: activePlayers_def p' f len)
  have "mset (map columnOrder (activePlayers ?st')) = mset (map int [0..<length playerIds])"
    using ms by (simp add: activePlayers_def)
  moreover have "sorted (map columnOrder (activePlayers ?st'))"
    by (simp add: activePlayers_def)
  moreover have "sorted (map int [0..<length playerIds])"
    by (simp add: sorted_map)
  ultimately have "map columnOrder (activePlayers ?st') = map int [0..<length playerIds]"
    by (intro sorted_mset_unique)
  then show ?thesis by (simp add: contiguousOrder_def la)
qed


lemma rejoinPlayer_players:
  assumes "find (\<lambda>p. p_id p = pid) (players (gameState svc)) = Some pl"
    and "isOut pl" and "pid \<in> set (playersEligibleForRejoin svc)"
  shows "players (gameState (rejoinPlayer pid svc)) =
           map (\<lambda>p. if p_id p = pid
                     then p\<lparr>isOut := False,
                            columnOrder := (case originalColumnOrder pl of
                                              Some c \<Rightarrow> c | None \<Rightarrow> columnOrder pl),
                            originalColumnOrder := None,
                            rejoinCount := rejoinCount p + 1\<rparr>
                     else if \<not> isOut p \<and>
                             columnOrder p \<ge> (case originalColumnOrder pl of
                                                  Some c \<Rightarrow> c | None \<Rightarrow> columnOrder pl)
                     then p\<lparr>columnOrder := columnOrder p + 1\<rparr>
                     else p)
               (players (gameState svc))"
  unfolding rejoinPlayer_def Let_def using assms by simp

lemma seat_shift_distinct:
  fixes ord :: int and pid :: string
  defines "f \<equiv> (\<lambda>p. if p_id p = pid
                     then p\<lparr>isOut := False, columnOrder := ord, originalColumnOrder := None,
                            rejoinCount := rejoinCount p + 1\<rparr>
                     else if \<not> isOut p \<and> columnOrder p \<ge> ord
                     then p\<lparr>columnOrder := columnOrder p + 1\<rparr>
                     else p)"
  assumes "distinct (map p_id ps)"
    and "distinct (map columnOrder (filter (\<lambda>p. \<not> isOut p) ps))"
    and "\<forall>p\<in>set ps. p_id p = pid \<longrightarrow> isOut p"
  shows "distinct (map columnOrder (filter (\<lambda>p. \<not> isOut p) (map f ps)))"
proof -
  define g where "g c = (if c \<ge> ord then c + 1 else c)" for c :: int
  have g_inj: "g a = g b \<Longrightarrow> a = b" for a b
    by (auto simp: g_def split: if_splits)
  have g_ord: "g a \<noteq> ord" for a
    by (auto simp: g_def)
  have sub: "set (map columnOrder (filter (\<lambda>p. \<not> isOut p) (map f qs))) \<subseteq>
               insert ord (g ` set (map columnOrder (filter (\<lambda>p. \<not> isOut p) qs)))" for qs
    by (induction qs) (auto simp: f_def g_def)
  from assms(2-4) show ?thesis
  proof (induction ps)
    case Nil
    then show ?case by simp
  next
    case (Cons p ps)
    have IH: "distinct (map columnOrder (filter (\<lambda>p. \<not> isOut p) (map f ps)))"
      using Cons by (auto split: if_splits)
    show ?case
    proof (cases "p_id p = pid")
      case True
      then have nopid: "\<forall>q\<in>set ps. p_id q \<noteq> pid"
        using Cons.prems(1) by (metis distinct.simps(2) image_eqI list.simps(9) set_map)
      have rest: "map columnOrder (filter (\<lambda>p. \<not> isOut p) (map f qs)) =
                    map g (map columnOrder (filter (\<lambda>p. \<not> isOut p) qs))"
        if "\<forall>q\<in>set qs. p_id q \<noteq> pid" for qs
        using that by (induction qs) (auto simp: f_def g_def)
      have "ord \<notin> set (map columnOrder (filter (\<lambda>p. \<not> isOut p) (map f ps)))"
        unfolding rest [OF nopid] using g_ord by auto
      then show ?thesis using True IH by (simp add: f_def)
    next
      case False
      show ?thesis
      proof (cases "isOut p")
        case True
        then show ?thesis using False IH by (simp add: f_def)
      next
        case out: False
        have notin: "columnOrder p \<notin> set (map columnOrder (filter (\<lambda>p. \<not> isOut p) ps))"
          using Cons.prems(2) out by simp
        have "g (columnOrder p) \<notin> set (map columnOrder (filter (\<lambda>p. \<not> isOut p) (map f ps)))"
        proof
          assume "g (columnOrder p) \<in> set (map columnOrder (filter (\<lambda>p. \<not> isOut p) (map f ps)))"
          then have "g (columnOrder p) \<in>
                       insert ord (g ` set (map columnOrder (filter (\<lambda>p. \<not> isOut p) ps)))"
            using sub [of ps] by blast
          then have "g (columnOrder p) \<in> g ` set (map columnOrder (filter (\<lambda>p. \<not> isOut p) ps))"
            using g_ord by auto
          then have "columnOrder p \<in> set (map columnOrder (filter (\<lambda>p. \<not> isOut p) ps))"
            using g_inj by auto
          then show False using notin by simp
        qed
        moreover have "columnOrder (f p) = g (columnOrder p)" "\<not> isOut (f p)"
          using False out by (auto simp: f_def g_def)
        ultimately show ?thesis using IH by simp
      qed
    qed
  qed
qed

lemma find_Some_set: "find P xs = Some x \<Longrightarrow> x \<in> set xs"
  by (induction xs) (auto split: if_splits)

lemma rejoinPlayer_keeps_distinct:
  assumes "find (\<lambda>p. p_id p = pid) (players (gameState svc)) = Some pl"
    and "isOut pl" and "pid \<in> set (playersEligibleForRejoin svc)"
    and d: "distinct (map p_id (players (gameState svc)))"
    and c: "distinct (map columnOrder (filter (\<lambda>p. \<not> isOut p) (players (gameState svc))))"
  shows "distinct (map columnOrder
           (filter (\<lambda>p. \<not> isOut p) (players (gameState (rejoinPlayer pid svc)))))"
proof -
  have pl: "pl \<in> set (players (gameState svc))" "p_id pl = pid"
    using assms(1) find_Some_set find_Some_P by fast+
  have "inj_on p_id (set (players (gameState svc)))"
    using d by (simp add: distinct_map)
  then have "\<forall>p\<in>set (players (gameState svc)). p_id p = pid \<longrightarrow> isOut p"
    using pl assms(2) by (auto dest: inj_onD)
  then show ?thesis
    unfolding rejoinPlayer_players [OF assms(1-3)]
    by (intro seat_shift_distinct d c)
qed


text \<open>
  Claim C8, amended.  After \<open>reorderPlayers\<close> with a duplicate-free list of exactly the
  ids of the active players (player ids being unique), the active players' column
  numbers are \<open>0..N-1\<close>; and \<open>rejoinPlayer\<close> of an eliminated, rejoin-eligible player
  keeps the active players' column numbers free of duplicates when they were so before
  (gaps may remain).
\<close>

theorem C8_order_after_reorder_and_rejoin:
  "(distinct (map p_id (players (gameState svc))) \<and> distinct playerIds \<and>
    set playerIds = p_id ` set (activePlayers (gameState svc)) \<longrightarrow>
      contiguousOrder (gameState (reorderPlayers playerIds svc)))
   \<and> (find (\<lambda>p. p_id p = pid) (players (gameState svc)) = Some pl \<and> isOut pl \<and>
       pid \<in> set (playersEligibleForRejoin svc) \<and>
       distinct (map p_id (players (gameState svc))) \<and>
       distinct (map columnOrder (activePlayers (gameState svc))) \<longrightarrow>
         distinct (map columnOrder (activePlayers (gameState (rejoinPlayer pid svc)))))"
proof (intro conjI impI)
  assume a: "distinct (map p_id (players (gameState svc))) \<and> distinct playerIds \<and>
    set playerIds = p_id ` set (activePlayers (gameState svc))"
  then have "set playerIds = p_id ` {p \<in> set (players (gameState svc)). \<not> isOut p}"
    by (simp add: activePlayers_def)
  then show "contiguousOrder (gameState (reorderPlayers playerIds svc))"
    using a by (intro reorderPlayers_contiguous) simp_all
next
  assume a: "find (\<lambda>p. p_id p = pid) (players (gameState svc)) = Some pl \<and> isOut pl \<and>
       pid \<in> set (playersEligibleForRejoin svc) \<and>
       distinct (map p_id (players (gameState svc))) \<and>
       distinct (map columnOrder (activePlayers (gameState svc)))"
  have m: "distinct (map columnOrder (activePlayers st)) =
             distinct (map columnOrder (filter (\<lambda>p. \<not> isOut p) (players st)))" for st
  proof -
    have "mset (map columnOrder (activePlayers st)) =
            mset (map columnOrder (filter (\<lambda>p. \<not> isOut p) (players st)))"
      by (simp add: activePlayers_def)
    then show ?thesis by (rule mset_eq_imp_distinct_iff)
  qed
  show "distinct (map columnOrder (activePlayers (gameState (rejoinPlayer pid svc))))"
    unfolding m using a by (intro rejoinPlayer_keeps_distinct [where pl = pl]) (simp_all add: m)
qed

theorem C8_order_after_reorder_and_rejoin_witness:
  "distinct (map p_id (players (gameState svcABC)))
   \<and> set [''c3'', ''a1'', ''b2''] = p_id ` set (activePlayers (gameState svcABC))
   \<and> contiguousOrder (gameState (reorderPlayers [''c3'', ''a1'', ''b2''] svcABC))
   \<and> map p_id (activePlayers (gameState (reorderPlayers [''c3'', ''a1'', ''b2''] svcABC))) =
        [''c3'', ''a1'', ''b2'']
   \<and> find (\<lambda>p. p_id p = ''b2'') (players (gameState svcBobOut)) =
        Some (pB\<lparr>isOut := True, originalColumnOrder := Some 1\<rparr>)
   \<and> ''b2'' \<in> set (playersEligibleForRejoin svcBobOut)
   \<and> distinct (map columnOrder (activePlayers (gameState svcBobOut)))
   \<and> distinct (map columnOrder (activePlayers (gameState (rejoinPlayer ''b2'' svcBobOut))))"
proof -
  have 1: "distinct (map p_id (players (gameState svcABC)))"
    by (simp add: svcABC_def pA_def pB_def pC_def)
  have 2: "set [''c3'', ''a1'', ''b2''] = p_id ` set (activePlayers (gameState svcABC))"
    by (auto simp: svcABC_def activePlayers_def pA_def pB_def pC_def)
  have 3: "map p_id (activePlayers (gameState (reorderPlayers [''c3'', ''a1'', ''b2''] svcABC))) =
        [''c3'', ''a1'', ''b2'']"
    by (simp add: reorderPlayers_def svcABC_def indexOf_def activePlayers_def pA_def pB_def pC_def)
  have 4: "find (\<lambda>p. p_id p = ''b2'') (players (gameState svcBobOut)) =
        Some (pB\<lparr>isOut := True, originalColumnOrder := Some 1\<rparr>)"
    by (simp add: svcBobOut_eq pA_def pB_def pC_def)
  have 5: "''b2'' \<in> set (playersEligibleForRejoin svcBobOut)"
    by (simp add: svcBobOut_eq)
  have 6: "distinct (map columnOrder (activePlayers (gameState svcBobOut)))"
    by (simp add: svcBobOut_eq activePlayers_def pA_def pB_def pC_def)
  have 7: "distinct (map p_id (players (gameState svcBobOut)))"
    by (simp add: svcBobOut_eq pA_def pB_def pC_def)
  have 8: "isOut (pB\<lparr>isOut := True, originalColumnOrder := Some 1\<rparr>)"
    by simp
  from C8_order_after_reorder_and_rejoin [of svcABC "[''c3'', ''a1'', ''b2'']"] 1 2
  have a: "contiguousOrder (gameState (reorderPlayers [''c3'', ''a1'', ''b2''] svcABC))"
    by simp
  from C8_order_after_reorder_and_rejoin
         [of svcBobOut "[]" "''b2''" "pB\<lparr>isOut := True, originalColumnOrder := Some 1\<rparr>"]
       4 5 6 7 8
  have b: "distinct (map columnOrder (activePlayers (gameState (rejoinPlayer ''b2'' svcBobOut))))"
    by blast
  show ?thesis using 1 2 3 4 5 6 a b by blast
qed

section \<open>C9: removing a player and adding the name again\<close>

lemma last_dropWhile: "dropWhile P xs \<noteq> [] \<Longrightarrow> last (dropWhile P xs) = last xs"
  by (induction xs) (auto split: if_splits)

lemma trim_idem: "trim (trim s) = trim s"
proof -
  define u where "u = dropWhile isWhitespace s"
  define v where "v = dropWhile isWhitespace (rev u)"
  have t: "trim s = rev v"
    by (simp add: trim_def u_def v_def)
  have a: "dropWhile isWhitespace (rev v) = rev v"
  proof (cases "v = []")
    case True
    then show ?thesis by simp
  next
    case False
    then have "last v = last (rev u)"
      unfolding v_def by (rule last_dropWhile)
    moreover have "u \<noteq> []"
      using False by (auto simp: v_def)
    ultimately have "last v = hd u"
      by (simp add: last_rev)
    moreover have "\<not> isWhitespace (hd u)"
      using \<open>u \<noteq> []\<close> unfolding u_def by (rule hd_dropWhile)
    ultimately have "\<not> isWhitespace (hd (rev v))"
      using False by (simp add: hd_rev)
    then show ?thesis
      by (cases "rev v") simp_all
  qed
  have b: "dropWhile isWhitespace v = v"
    by (simp add: v_def)
  show ?thesis
    unfolding t by (simp add: trim_def a b)
qed

lemma name_reassignOrder [simp]: "map name (reassignOrder n ps) = map name ps"
  by (induction ps arbitrary: n) simp_all

lemma removedPlayers_checkGameOver [simp]: "removedPlayers (checkGameOver st) = removedPlayers st"
  by (simp add: checkGameOver_def Let_def)

lemma find_filter_neg: "find P (filter (\<lambda>x. \<not> P x) xs) = None"
  by (induction xs) simp_all

lemma find_append: "find P (xs @ ys) = (case find P xs of None \<Rightarrow> find P ys | Some x \<Rightarrow> Some x)"
  by (induction xs) simp_all

text \<open>The score saved for a round is found again under the round's id.\<close>

lemma saved_lookup:
  assumes "distinct (map r_id rs)" and "r \<in> set rs"
  shows "find (\<lambda>s. roundId s = r_id r)
           (concat (map (\<lambda>round. case findScore round pid of
                                     Some s \<Rightarrow> [\<lparr>roundId = r_id round, savedScore = score s\<rparr>]
                                   | None \<Rightarrow> [])
                        rs)) =
         map_option (\<lambda>s. \<lparr>roundId = r_id r, savedScore = score s\<rparr>) (findScore r pid)"
  using assms
proof (induction rs)
  case Nil
  then show ?case by simp
next
  case (Cons x xs)
  show ?case
  proof (cases "r = x")
    case True
    have ne: "r_id y \<noteq> r_id x" if "y \<in> set xs" for y
      using Cons.prems(1) that by (metis distinct.simps(2) image_eqI list.simps(9) set_map)
    have "find (\<lambda>s. roundId s = r_id x)
           (concat (map (\<lambda>round. case findScore round pid of
                                     Some s \<Rightarrow> [\<lparr>roundId = r_id round, savedScore = score s\<rparr>]
                                   | None \<Rightarrow> [])
                        xs)) = None"
      using ne by (auto simp: find_None_iff split: option.splits)
    then show ?thesis using True by (simp add: find_append split: option.splits)
  next
    case False
    then have r: "r \<in> set xs" "r_id x \<noteq> r_id r"
      using Cons.prems by auto
    then show ?thesis using Cons by (simp add: find_append split: option.splits)
  qed
qed


lemma removePlayer_found:
  assumes "find (\<lambda>p. p_id p = pid) (players (gameState svc)) = Some pl"
  shows "players (gameState (removePlayer pid svc)) =
           reassignOrder 0 (filter (\<lambda>p. p_id p \<noteq> pid) (players (gameState svc)))"
    and "rounds (gameState (removePlayer pid svc)) =
           map (\<lambda>round. round\<lparr>scores := filter (\<lambda>s. playerId s \<noteq> pid) (scores round)\<rparr>)
               (rounds (gameState svc))"
    and "removedPlayers (gameState (removePlayer pid svc)) =
           filter (\<lambda>rp. toLowerCase (name (player rp)) \<noteq> toLowerCase (name pl))
                  (removedPlayers (gameState svc)) @
           [\<lparr>player = pl,
             rp_scores =
               concat (map (\<lambda>round. case findScore round pid of
                                        Some s \<Rightarrow> [\<lparr>roundId = r_id round, savedScore = score s\<rparr>]
                                      | None \<Rightarrow> [])
                           (rounds (gameState svc)))\<rparr>]"
  using assms by (simp_all add: removePlayer_def Let_def)

lemma addPlayer_restore:
  assumes "\<not> isPlayerNameTaken (gameState svc) (trim nm)"
    and "findRemovedPlayer (gameState svc) (trim nm) = Some rp"
  shows "fst (addPlayer nm newId svc) = True"
    and "players (gameState (snd (addPlayer nm newId svc))) =
           players (gameState svc) @
             [(player rp)\<lparr>isOut := False,
                          columnOrder := int (length (activePlayers (gameState svc)))\<rparr>]"
    and "rounds (gameState (snd (addPlayer nm newId svc))) =
           map (\<lambda>round.
                  case find (\<lambda>s. roundId s = r_id round) (rp_scores rp) of
                    Some saved \<Rightarrow>
                      round\<lparr>scores := scores round @
                               [\<lparr>playerId = p_id (player rp), score = savedScore saved\<rparr>]\<rparr>
                  | None \<Rightarrow> round)
               (rounds (gameState svc))"
    and "removedPlayers (gameState (snd (addPlayer nm newId svc))) =
           filter (\<lambda>r. toLowerCase (name (player r)) \<noteq> toLowerCase (trim nm))
                  (removedPlayers (gameState svc))"
  using assms by (simp_all add: addPlayer_def Let_def activePlayers_def cong: option.case_cong)

lemma find_strip_append:
  "find (\<lambda>s. playerId s = pid) (filter (\<lambda>s. playerId s \<noteq> pid) scs @ [\<lparr>playerId = pid, score = v\<rparr>]) =
     Some \<lparr>playerId = pid, score = v\<rparr>"
  by (simp add: find_append find_filter_neg [of "\<lambda>s. playerId s = pid"])

lemma find_strip: "find (\<lambda>s. playerId s = pid) (filter (\<lambda>s. playerId s \<noteq> pid) scs) = None"
  by (rule find_filter_neg [of "\<lambda>s. playerId s = pid"])

text \<open>
  Adding the name again directly after the removal.  Let player \<open>pid\<close> be registered, let
  no other registered player carry the same name up to case, and let the rounds have
  distinct ids.  Remove the player and add a name that equals theirs after trimming and
  lower-casing.  Then \<open>addPlayer\<close> returns true; the tombstone found for the name holds
  the removed player; in every round the player's score is what it was before the
  removal (and absent where it was absent), so the total is the same; the player is
  appended with the same id, name and \<open>rejoinCount\<close>, active, in the column after the
  active players; and no tombstone for the name is left.
\<close>

lemma removePlayer_addPlayer_restores:
  assumes f: "find (\<lambda>p. p_id p = pid) (players (gameState svc)) = Some pl"
    and n: "toLowerCase (trim nm) = toLowerCase (name pl)"
    and u: "\<forall>q\<in>set (players (gameState svc)).
              p_id q \<noteq> pid \<longrightarrow> toLowerCase (name q) \<noteq> toLowerCase (name pl)"
    and d: "distinct (map r_id (rounds (gameState svc)))"
  shows "fst (addPlayer nm newId (removePlayer pid svc)) = True
         \<and> map_option player (findRemovedPlayer (gameState (removePlayer pid svc)) nm) = Some pl
         \<and> map (\<lambda>r. map_option score (findScore r pid))
               (rounds (gameState (snd (addPlayer nm newId (removePlayer pid svc))))) =
             map (\<lambda>r. map_option score (findScore r pid)) (rounds (gameState svc))
         \<and> calculatePlayerTotal (gameState (snd (addPlayer nm newId (removePlayer pid svc)))) pid =
             calculatePlayerTotal (gameState svc) pid
         \<and> last (players (gameState (snd (addPlayer nm newId (removePlayer pid svc))))) =
             pl\<lparr>isOut := False,
                columnOrder := int (length (activePlayers (gameState (removePlayer pid svc))))\<rparr>
         \<and> findRemovedPlayer (gameState (snd (addPlayer nm newId (removePlayer pid svc)))) nm = None"
proof -
  let ?st = "gameState svc"
  let ?svc1 = "removePlayer pid svc"
  let ?st1 = "gameState ?svc1"
  let ?saved = "concat (map (\<lambda>round. case findScore round pid of
                                        Some s \<Rightarrow> [\<lparr>roundId = r_id round, savedScore = score s\<rparr>]
                                      | None \<Rightarrow> [])
                           (rounds ?st))"
  let ?rec = "\<lparr>player = pl, rp_scores = ?saved\<rparr>"
  let ?strip = "\<lambda>round. round\<lparr>scores := filter (\<lambda>s. playerId s \<noteq> pid) (scores round)\<rparr>"
  let ?st2 = "gameState (snd (addPlayer nm newId ?svc1))"
  note rm = removePlayer_found [OF f]
  have pid: "p_id pl = pid"
    using find_Some_P [OF f] .
  \<comment> \<open>the name is free again, and the tombstone is the one just written\<close>
  have nt: "\<not> isPlayerNameTaken ?st1 (trim nm)"
  proof -
    have "toLowerCase (name q) \<noteq> toLowerCase (name pl)"
      if "q \<in> set (filter (\<lambda>p. p_id p \<noteq> pid) (players ?st))" for q
      using that u by auto
    then have "\<forall>x\<in>set (map name (filter (\<lambda>p. p_id p \<noteq> pid) (players ?st))).
                 toLowerCase x \<noteq> toLowerCase (name pl)"
      by auto
    then have "\<forall>x\<in>set (map name (players ?st1)). toLowerCase x \<noteq> toLowerCase (name pl)"
      by (simp only: rm(1) name_reassignOrder)
    then show ?thesis
      by (auto simp: isPlayerNameTaken_def Let_def list_ex_iff trim_idem n)
  qed
  have fr: "findRemovedPlayer ?st1 (trim nm) = Some ?rec"
    unfolding findRemovedPlayer_def Let_def trim_idem n rm(3)
    by (simp add: find_append
        find_filter_neg [of "\<lambda>rp. toLowerCase (name (player rp)) = toLowerCase (name pl)"])
  have fr': "findRemovedPlayer ?st1 nm = Some ?rec"
    using fr by (simp add: findRemovedPlayer_def Let_def trim_idem)
  note ad = addPlayer_restore [OF nt fr, of newId]
  \<comment> \<open>every round gets the player's saved score back\<close>
  have r2: "rounds ?st2 =
              map (\<lambda>round. case find (\<lambda>s. roundId s = r_id round) ?saved of
                              Some saved \<Rightarrow>
                                round\<lparr>scores := scores round @
                                         [\<lparr>playerId = pid, score = savedScore saved\<rparr>]\<rparr>
                            | None \<Rightarrow> round)
                  (map ?strip (rounds ?st))"
    using ad(3) by (simp add: rm(2) pid cong: option.case_cong)
  have per: "map_option score
               (findScore
                  (case find (\<lambda>s. roundId s = r_id (?strip r)) ?saved of
                     Some saved \<Rightarrow>
                       (?strip r)\<lparr>scores := scores (?strip r) @
                                     [\<lparr>playerId = pid, score = savedScore saved\<rparr>]\<rparr>
                   | None \<Rightarrow> ?strip r)
                  pid) =
             map_option score (findScore r pid)"
    if "r \<in> set (rounds ?st)" for r
  proof (cases "findScore r pid")
    case None
    then show ?thesis
      using saved_lookup [OF d that, of pid] by (simp add: findScore_def find_strip)
  next
    case (Some e)
    then show ?thesis
      using saved_lookup [OF d that, of pid] by (simp add: findScore_def find_strip_append)
  qed
  have 3: "map (\<lambda>r. map_option score (findScore r pid)) (rounds ?st2) =
             map (\<lambda>r. map_option score (findScore r pid)) (rounds ?st)"
    unfolding r2 map_map comp_def using per by (intro map_cong refl) simp
  have sc: "scoreIn r q = (case map_option score (findScore r q) of None \<Rightarrow> 0 | Some v \<Rightarrow> v)" for r q
    by (simp add: scoreIn_def split: option.splits)
  have 4: "calculatePlayerTotal ?st2 pid = calculatePlayerTotal ?st pid"
  proof -
    have "map (\<lambda>r. scoreIn r pid) (rounds ?st2) =
            map (\<lambda>x. case x of None \<Rightarrow> 0 | Some v \<Rightarrow> v)
                (map (\<lambda>r. map_option score (findScore r pid)) (rounds ?st2))"
      by (simp add: sc comp_def)
    also have "\<dots> = map (\<lambda>x. case x of None \<Rightarrow> 0 | Some v \<Rightarrow> v)
                (map (\<lambda>r. map_option score (findScore r pid)) (rounds ?st))"
      by (simp only: 3)
    also have "\<dots> = map (\<lambda>r. scoreIn r pid) (rounds ?st)"
      by (simp add: sc comp_def)
    finally show ?thesis by (simp add: calculatePlayerTotal_sum)
  qed
  have 5: "last (players ?st2) =
             pl\<lparr>isOut := False, columnOrder := int (length (activePlayers ?st1))\<rparr>"
    using ad(2) by simp
  have 6: "findRemovedPlayer ?st2 nm = None"
    unfolding findRemovedPlayer_def Let_def ad(4)
    by (rule find_filter_neg [of "\<lambda>rp. toLowerCase (name (player rp)) = toLowerCase (trim nm)"])
  show ?thesis using ad(1) fr' 3 4 5 6 by simp
qed


lemma lower_bob: "toLowerCase (trim '' BOB '') = ''bob''"
  by code_simp

lemma removePlayer_addPlayer_restores_example:
  "find (\<lambda>p. p_id p = ''b2'') (players (gameState svcRound1)) = Some pB
   \<and> toLowerCase (trim '' BOB '') = toLowerCase (name pB)
   \<and> distinct (map r_id (rounds (gameState svcRound1)))
   \<and> map (\<lambda>r. map_option score (findScore r ''b2'')) (rounds (gameState svcRound1)) = [Some 40]
   \<and> map (\<lambda>r. map_option score (findScore r ''b2''))
         (rounds (gameState (removePlayer ''b2'' svcRound1))) = [None]
   \<and> fst (addPlayer '' BOB '' ''x9'' (removePlayer ''b2'' svcRound1)) = True
   \<and> map (\<lambda>r. map_option score (findScore r ''b2''))
         (rounds (gameState (snd (addPlayer '' BOB '' ''x9'' (removePlayer ''b2'' svcRound1))))) =
       [Some 40]
   \<and> calculatePlayerTotal
         (gameState (snd (addPlayer '' BOB '' ''x9'' (removePlayer ''b2'' svcRound1)))) ''b2'' = 40
   \<and> rejoinCount
         (last (players (gameState (snd (addPlayer '' BOB '' ''x9'' (removePlayer ''b2'' svcRound1))))))
       = rejoinCount pB
   \<and> findRemovedPlayer
         (gameState (snd (addPlayer '' BOB '' ''x9'' (removePlayer ''b2'' svcRound1)))) '' BOB '' = None"
proof -
  have h1: "find (\<lambda>p. p_id p = ''b2'') (players (gameState svcRound1)) = Some pB"
    by (simp add: svcRound1_eq pA_def pB_def pC_def)
  have h2: "toLowerCase (trim '' BOB '') = toLowerCase (name pB)"
    by (simp add: lower_bob lower_names pB_def)
  have h3: "\<forall>q\<in>set (players (gameState svcRound1)).
              p_id q \<noteq> ''b2'' \<longrightarrow> toLowerCase (name q) \<noteq> toLowerCase (name pB)"
    by (simp add: svcRound1_eq lower_names pA_def pB_def pC_def)
  have h4: "distinct (map r_id (rounds (gameState svcRound1)))"
    by (simp add: svcRound1_eq)
  have b: "map (\<lambda>r. map_option score (findScore r ''b2'')) (rounds (gameState svcRound1)) = [Some 40]"
    by (simp add: svcRound1_eq findScore_def round1_def)
  have t: "calculatePlayerTotal (gameState svcRound1) ''b2'' = 40"
    by (simp add: svcRound1_eq calculatePlayerTotal_def findScore_def round1_def)
  have m: "map (\<lambda>r. map_option score (findScore r ''b2''))
         (rounds (gameState (removePlayer ''b2'' svcRound1))) = [None]"
    unfolding removePlayer_found(2) [OF h1]
    by (simp add: svcRound1_eq findScore_def round1_def)
  from removePlayer_addPlayer_restores [OF h1 h2 h3 h4, of "''x9''"] h1 h2 h4 b t m
  show ?thesis by simp
qed

lemma trim_bob: "trim ''bob'' = ''bob''" "toLowerCase ''bob'' = ''bob''"
  by code_simp+

lemma svcTwoRounds_eq:
  "svcTwoRounds =
     \<lparr>gameState =
        \<lparr>settings = \<lparr>maxPoints = 101, dropPoints = 20\<rparr>,
         players = [pA, pB, pC],
         rounds = [\<lparr>r_id = 1, scores = roundC50, winnerId = Some ''a1'', timestamp = 1000\<rparr>,
                   \<lparr>r_id = 2, scores = roundSecond, winnerId = Some ''c3'', timestamp = 2000\<rparr>],
         currentOpenCardPlayerIndex = 2, isGameStarted = True, isGameOver = False,
         gameWinnerId = None, removedPlayers = []\<rparr>,
      playersEligibleForRejoin = []\<rparr>"
  by (simp add: svcTwoRounds_def svcABC_def roundC50_def roundSecond_def eval_defs)

lemma svcBobAfterDelete_rounds:
  "rounds (gameState (deleteRound 1 (removePlayer ''b2'' svcTwoRounds))) =
     [\<lparr>r_id = 1,
       scores = [\<lparr>playerId = ''a1'', score = 5\<rparr>, \<lparr>playerId = ''c3'', score = 0\<rparr>],
       winnerId = Some ''c3'', timestamp = 2000\<rparr>]
   \<and> rounds (gameState svcBobAfterDelete) =
     [\<lparr>r_id = 1,
       scores = [\<lparr>playerId = ''a1'', score = 5\<rparr>, \<lparr>playerId = ''c3'', score = 0\<rparr>,
                 \<lparr>playerId = ''b2'', score = 10\<rparr>],
       winnerId = Some ''c3'', timestamp = 2000\<rparr>]"
  by (simp add: svcBobAfterDelete_def svcTwoRounds_eq removePlayer_def deleteRound_def
      recalculatePlayerStatuses_def addPlayer_def isPlayerNameTaken_def findRemovedPlayer_def
      trim_bob lower_names roundC50_def roundSecond_def eval_defs)

lemma svcBobAfterNewGame_rounds:
  "rounds (gameState svcNewGameRound) =
     [\<lparr>r_id = 1, scores = roundNewGame, winnerId = Some ''a1'', timestamp = 3000\<rparr>]
   \<and> rounds (gameState svcBobAfterNewGame) =
     [\<lparr>r_id = 1,
       scores = [\<lparr>playerId = ''a1'', score = 0\<rparr>, \<lparr>playerId = ''c3'', score = 15\<rparr>,
                 \<lparr>playerId = ''b2'', score = 10\<rparr>],
       winnerId = Some ''a1'', timestamp = 3000\<rparr>]"
  by (simp add: svcBobAfterNewGame_def svcNewGameRound_def svcABC_def removePlayer_def newGame_def
      addPlayer_def isPlayerNameTaken_def findRemovedPlayer_def
      trim_bob lower_names roundC50_def roundNewGame_def eval_defs)

text \<open>
  Claim C9 evaluated on the code where the rounds change between the removal and the
  re-add.  Bob has 10 points in round 1 and 20 in round 2.  He is removed, round 1 is
  deleted and the remaining round renumbered 1; added again, he gets the 10 points saved
  under id 1 in the round where he had scored 20, and his total is 10 instead of 30.
  Likewise he is removed with 10 points in round 1, a new game is started and its first
  round played without him; added again, he gets the old game's 10 points in the new
  game's round 1.
\<close>

theorem C9_stale_tombstone_scores:
  "getPlayerScore (gameState svcTwoRounds) 1 ''b2'' = Some 10
   \<and> getPlayerScore (gameState svcTwoRounds) 2 ''b2'' = Some 20
   \<and> calculatePlayerTotal (gameState svcTwoRounds) ''b2'' = 30
   \<and> map timestamp (rounds (gameState svcBobAfterDelete)) = [2000]
   \<and> getPlayerScore (gameState svcBobAfterDelete) 1 ''b2'' = Some 10
   \<and> calculatePlayerTotal (gameState svcBobAfterDelete) ''b2'' = 10
   \<and> map timestamp (rounds (gameState svcBobAfterNewGame)) = [3000]
   \<and> getPlayerScore (gameState svcNewGameRound) 1 ''b2'' = None
   \<and> getPlayerScore (gameState svcBobAfterNewGame) 1 ''b2'' = Some 10
   \<and> calculatePlayerTotal (gameState svcBobAfterNewGame) ''b2'' = 10"
proof -
  have 1: "getPlayerScore (gameState svcTwoRounds) 1 ''b2'' = Some 10
      \<and> getPlayerScore (gameState svcTwoRounds) 2 ''b2'' = Some 20
      \<and> calculatePlayerTotal (gameState svcTwoRounds) ''b2'' = 30"
    by (simp add: svcTwoRounds_eq getPlayerScore_def calculatePlayerTotal_def findScore_def
        roundC50_def roundSecond_def)
  have 2: "map timestamp (rounds (gameState svcBobAfterDelete)) = [2000]
      \<and> getPlayerScore (gameState svcBobAfterDelete) 1 ''b2'' = Some 10
      \<and> calculatePlayerTotal (gameState svcBobAfterDelete) ''b2'' = 10"
    by (simp add: svcBobAfterDelete_rounds getPlayerScore_def calculatePlayerTotal_def
        findScore_def)
  have 3: "map timestamp (rounds (gameState svcBobAfterNewGame)) = [3000]
      \<and> getPlayerScore (gameState svcNewGameRound) 1 ''b2'' = None
      \<and> getPlayerScore (gameState svcBobAfterNewGame) 1 ''b2'' = Some 10
      \<and> calculatePlayerTotal (gameState svcBobAfterNewGame) ''b2'' = 10"
    by (simp add: svcBobAfterNewGame_rounds getPlayerScore_def calculatePlayerTotal_def
        findScore_def roundNewGame_def)
  show ?thesis using 1 2 3 by blast
qed

section \<open>C5: rejoining an eligible player\<close>

text \<open>
  Invariant of the reachable states: every rejoin-eligible player has an entry in the
  last round.
\<close>

lemma hasEntry_findScore:
  "hasEntry rs pid \<Longrightarrow> \<exists>e. findScore (last rs) pid = Some e"
  by (cases "findScore (last rs) pid")
     (auto simp: hasEntry_def findScore_def find_None_iff list_ex_iff)

lemma hasEntry_map:
  assumes "hasEntry rs pid"
    and "\<And>r. list_ex (\<lambda>s. playerId s = pid) (scores r) \<Longrightarrow>
              list_ex (\<lambda>s. playerId s = pid) (scores (f r))"
  shows "hasEntry (map f rs) pid"
  using assms by (simp add: hasEntry_def last_map)

lemma hasEntry_map_last:
  assumes "hasEntry rs pid"
    and "list_ex (\<lambda>s. playerId s = pid) (scores (last rs)) \<Longrightarrow>
           list_ex (\<lambda>s. playerId s = pid) (scores (f (last rs)))"
  shows "hasEntry (map (\<lambda>(index, r). if int index = int (length rs) - 1 then f r else r)
                       (enumerate 0 rs)) pid"
proof -
  have "rs \<noteq> []" using assms(1) by (simp add: hasEntry_def)
  then show ?thesis
    using assms by (simp add: map_last_enumerate hasEntry_def)
qed

lemma list_ex_rescore [simp]:
  "list_ex (\<lambda>s. playerId s = q)
           (map (\<lambda>s. if playerId s = p then s\<lparr>score := v\<rparr> else s) xs) =
   list_ex (\<lambda>s. playerId s = q) xs"
  by (induction xs) auto

lemma eligible_hasEntry:
  "reachable svc \<Longrightarrow> pid \<in> set (playersEligibleForRejoin svc) \<Longrightarrow>
     hasEntry (rounds (gameState svc)) pid"
proof (induction arbitrary: pid rule: reachable.induct)
  case (start svc)
  then show ?case by simp
next
  case (initializeGame svc maxP dropP)
  then show ?case by (simp add: initializeGame_def)
next
  case (updateSettings svc s)
  then show ?case by (simp add: updateSettings_def)
next
  case (addPlayer svc nm newId)
  have e: "playersEligibleForRejoin (snd (addPlayer nm newId svc)) = playersEligibleForRejoin svc"
    by (simp add: addPlayer_def Let_def split: option.splits)
  then have h: "hasEntry (rounds (gameState svc)) pid"
    using addPlayer by simp
  show ?case
  proof (cases "isPlayerNameTaken (gameState svc) (trim nm)")
    case True
    then show ?thesis using h by (simp add: addPlayer_def Let_def)
  next
    case False
    show ?thesis
    proof (cases "findRemovedPlayer (gameState svc) (trim nm)")
      case None
      then show ?thesis using h False by (simp add: addPlayer_def Let_def)
    next
      case (Some rp)
      show ?thesis
        unfolding addPlayer_restore(3) [OF False Some]
        by (rule hasEntry_map [OF h]) (auto simp: list_ex_iff split: option.splits)
    qed
  qed
next
  case (addJoinScoreForNewPlayer svc nm joinScore)
  have e: "playersEligibleForRejoin (addJoinScoreForNewPlayer nm joinScore svc) =
             playersEligibleForRejoin svc"
    by (simp add: addJoinScoreForNewPlayer_def Let_def split: option.splits)
  then have h: "hasEntry (rounds (gameState svc)) pid"
    using addJoinScoreForNewPlayer by simp
  show ?case
  proof (cases "find (\<lambda>p. name p = nm \<and> \<not> isOut p) (players (gameState svc))")
    case None
    then show ?thesis using h by (simp add: addJoinScoreForNewPlayer_def Let_def)
  next
    case (Some pl)
    have ne: "rounds (gameState svc) \<noteq> []" using h by (simp add: hasEntry_def)
    have "rounds (gameState (addJoinScoreForNewPlayer nm joinScore svc)) =
            map (\<lambda>(index, r).
                   if int index = int (length (rounds (gameState svc))) - 1
                   then r\<lparr>scores := scores r @ [\<lparr>playerId = p_id pl, score = joinScore\<rparr>]\<rparr>
                   else r)
                (enumerate 0 (rounds (gameState svc)))"
      using Some ne by (simp add: addJoinScoreForNewPlayer_def Let_def)
    then show ?thesis
      using hasEntry_map_last [OF h, of "\<lambda>r. r\<lparr>scores := scores r @ [\<lparr>playerId = p_id pl, score = joinScore\<rparr>]\<rparr>"]
      by (simp add: list_ex_iff)
  qed
next
  case (rejoinPlayer svc pid')
  show ?case
  proof (cases "find (\<lambda>p. p_id p = pid') (players (gameState svc))")
    case None
    then show ?thesis using rejoinPlayer by (simp add: rejoinPlayer_def)
  next
    case (Some pl)
    show ?thesis
    proof (cases "isOut pl \<and> pid' \<in> set (playersEligibleForRejoin svc)")
      case False
      then show ?thesis using rejoinPlayer Some by (auto simp: rejoinPlayer_def)
    next
      case True
      then have el: "playersEligibleForRejoin (rejoinPlayer pid' svc) =
                       filter (\<lambda>i. i \<noteq> pid') (playersEligibleForRejoin svc)"
        using Some by (simp add: rejoinPlayer_def Let_def)
      then have h: "hasEntry (rounds (gameState svc)) pid"
        using rejoinPlayer by simp
      have h': "hasEntry (rounds (gameState svc)) pid'"
        using rejoinPlayer True by simp
      then have ne: "rounds (gameState svc) \<noteq> []" by (simp add: hasEntry_def)
      show ?thesis
        unfolding rejoinPlayer_rounds [OF Some conjunct1 [OF True] conjunct2 [OF True] ne]
        using h by (simp add: hasEntry_def)
    qed
  qed
next
  case (removePlayer svc pid')
  show ?case
  proof (cases "find (\<lambda>p. p_id p = pid') (players (gameState svc))")
    case None
    then show ?thesis using removePlayer by (simp add: removePlayer_def)
  next
    case (Some pl)
    have el: "playersEligibleForRejoin (removePlayer pid' svc) =
                filter (\<lambda>i. i \<noteq> pid') (playersEligibleForRejoin svc)"
      using Some by (simp add: removePlayer_def Let_def)
    then have p: "pid \<noteq> pid'" and h: "hasEntry (rounds (gameState svc)) pid"
      using removePlayer by auto
    show ?thesis
      unfolding removePlayer_found(2) [OF Some]
      by (rule hasEntry_map [OF h]) (use p in \<open>auto simp: list_ex_iff\<close>)
  qed
next
  case (reorderPlayers svc playerIds)
  then show ?case by (simp add: reorderPlayers_def Let_def)
next
  case (addRound svc scs now)
  have "pid \<in> p_id ` set (filter (\<lambda>p. \<not> isOut p) (players (gameState svc)))"
    using addRound.prems unfolding addRound_eligible by auto
  then have "list_ex (\<lambda>s. playerId s = pid) scs"
    using addRound.hyps(2) by (auto simp: coversActive_def list_all_iff)
  then show ?case
    by (simp add: hasEntry_def rounds_addRound)
next
  case (updateScore svc rid pid' newScore)
  have "playersEligibleForRejoin (updateScore rid pid' newScore svc) = playersEligibleForRejoin svc"
    by (simp add: updateScore_def Let_def)
  then have h: "hasEntry (rounds (gameState svc)) pid"
    using updateScore by simp
  show ?case
    unfolding updateScore_gameState rounds_checkPlayersOut
    by (simp, rule hasEntry_map [OF h]) simp
next
  case (advanceOpenCard svc)
  then show ?case by simp
next
  case (setOpenCardPlayer svc pid')
  then show ?case by (simp add: setOpenCardPlayer_def Let_def)
next
  case (setDealer svc pid')
  then show ?case by (simp add: setDealer_def Let_def)
next
  case (newGame svc)
  then show ?case by (simp add: newGame_def Let_def)
next
  case (resetEverything svc)
  then show ?case by (simp add: resetEverything_def)
next
  case (deleteRound svc rid)
  then show ?case by (simp add: deleteRound_def Let_def)
qed


text \<open>
  Claim C5.  In every reachable state, for every eliminated player \<open>pid\<close> in the
  rejoin-eligible list, \<open>rejoinPlayer\<close> makes the player's total equal to the highest
  active total plus one, whatever the total was; the number of rounds is unchanged,
  every round but the last is unchanged, the last round keeps its entries in order with
  every other player's entry untouched, and every other player's total is unchanged.
\<close>

theorem C5_rejoin_total_is_highest_plus_one:
  assumes "reachable svc"
    and "find (\<lambda>p. p_id p = pid) (players (gameState svc)) = Some pl"
    and "isOut pl" and "pid \<in> set (playersEligibleForRejoin svc)"
  shows "calculatePlayerTotal (gameState (rejoinPlayer pid svc)) pid =
           getHighestActiveScore (gameState svc) None + 1
         \<and> length (rounds (gameState (rejoinPlayer pid svc))) = length (rounds (gameState svc))
         \<and> butlast (rounds (gameState (rejoinPlayer pid svc))) = butlast (rounds (gameState svc))
         \<and> map playerId (scores (last (rounds (gameState (rejoinPlayer pid svc))))) =
             map playerId (scores (last (rounds (gameState svc))))
         \<and> filter (\<lambda>s. playerId s \<noteq> pid) (scores (last (rounds (gameState (rejoinPlayer pid svc))))) =
             filter (\<lambda>s. playerId s \<noteq> pid) (scores (last (rounds (gameState svc))))
         \<and> (\<forall>q. q \<noteq> pid \<longrightarrow>
               calculatePlayerTotal (gameState (rejoinPlayer pid svc)) q =
                 calculatePlayerTotal (gameState svc) q)"
proof -
  have h: "hasEntry (rounds (gameState svc)) pid"
    using assms(1,4) by (rule eligible_hasEntry)
  then have ne: "rounds (gameState svc) \<noteq> []"
    by (simp add: hasEntry_def)
  obtain e where e: "findScore (last (rounds (gameState svc))) pid = Some e"
    using hasEntry_findScore [OF h] by blast
  show ?thesis
    by (rule rejoinPlayer_adjusts_entry [OF assms(2-4) ne e])
qed

theorem C5_rejoin_total_is_highest_plus_one_witness:
  "reachable svcRound1
   \<and> find (\<lambda>p. p_id p = ''c3'') (players (gameState svcRound1)) =
       Some (pC\<lparr>isOut := True, originalColumnOrder := Some 2\<rparr>)
   \<and> ''c3'' \<in> set (playersEligibleForRejoin svcRound1)
   \<and> getHighestActiveScore (gameState svcRound1) None = 40
   \<and> calculatePlayerTotal (gameState svcRound1) ''c3'' = 110
   \<and> calculatePlayerTotal (gameState (rejoinPlayer ''c3'' svcRound1)) ''c3'' = 41
   \<and> calculatePlayerTotal (gameState (rejoinPlayer ''c3'' svcRound1)) ''b2'' = 40
   \<and> length (rounds (gameState (rejoinPlayer ''c3'' svcRound1))) = 1"
proof -
  have r0: "reachable svcABC"
    by (rule reachable.start) (simp add: svcABC_def)
  have "coversActive round1 (gameState svcABC)"
    by (simp add: coversActive_def svcABC_def round1_def pA_def pB_def pC_def)
  with r0 have r: "reachable svcRound1"
    unfolding svcRound1_def by (rule reachable.addRound)
  have h1: "find (\<lambda>p. p_id p = ''c3'') (players (gameState svcRound1)) =
              Some (pC\<lparr>isOut := True, originalColumnOrder := Some 2\<rparr>)"
    by (simp add: svcRound1_eq pA_def pB_def pC_def)
  have h2: "isOut (pC\<lparr>isOut := True, originalColumnOrder := Some 2\<rparr>)"
    by simp
  have h3: "''c3'' \<in> set (playersEligibleForRejoin svcRound1)"
    by (simp add: svcRound1_eq)
  have hi: "getHighestActiveScore (gameState svcRound1) None = 40"
    by (simp add: svcRound1_eq getHighestActiveScore_def calculatePlayerTotal_def findScore_def
        round1_def pA_def pB_def pC_def)
  have tb: "calculatePlayerTotal (gameState svcRound1) ''b2'' = 40"
    "calculatePlayerTotal (gameState svcRound1) ''c3'' = 110"
    by (simp_all add: svcRound1_eq calculatePlayerTotal_def findScore_def round1_def)
  have l: "length (rounds (gameState svcRound1)) = 1"
    by (simp add: svcRound1_eq)
  from C5_rejoin_total_is_highest_plus_one [OF r h1 h2 h3] r h1 h3 hi tb l
  show ?thesis by simp
qed

section \<open>C10: a restored player is seated without an elimination check\<close>

lemma svcCarolGone_eq:
  "svcCarolGone =
     \<lparr>gameState =
        \<lparr>settings = \<lparr>maxPoints = 101, dropPoints = 20\<rparr>,
         players = [pA, pB],
         rounds = [\<lparr>r_id = 1,
                    scores = [\<lparr>playerId = ''a1'', score = 0\<rparr>, \<lparr>playerId = ''b2'', score = 40\<rparr>],
                    winnerId = Some ''a1'', timestamp = 1000\<rparr>],
         currentOpenCardPlayerIndex = 1, isGameStarted = True, isGameOver = False,
         gameWinnerId = None,
         removedPlayers = [\<lparr>player = pC\<lparr>isOut := True, originalColumnOrder := Some 2\<rparr>,
                            rp_scores = [\<lparr>roundId = 1, savedScore = 110\<rparr>]\<rparr>]\<rparr>,
      playersEligibleForRejoin = []\<rparr>"
  by (simp add: svcCarolGone_def svcRound1_eq removePlayer_def round1_def eval_defs)

text \<open>
  Claim C10.  Whenever \<open>addPlayer\<close> finds a tombstone for the (trimmed) name and the name
  is not taken, it returns true and appends the tombstone's player with \<open>isOut\<close> false and
  \<open>columnOrder\<close> the number of active players before the call, whatever the restored
  total is; settings, \<open>isGameOver\<close>, \<open>gameWinnerId\<close> and the rejoin-eligible list are left
  as they were, so no elimination check takes place.  (In the witness the restored
  player has 110 points against a ceiling of 101 and is active.)
\<close>

theorem C10_restore_without_recheck:
  assumes "\<not> isPlayerNameTaken (gameState svc) (trim nm)"
    and "findRemovedPlayer (gameState svc) (trim nm) = Some rp"
  shows "fst (addPlayer nm newId svc) = True
         \<and> players (gameState (snd (addPlayer nm newId svc))) =
             players (gameState svc) @
               [(player rp)\<lparr>isOut := False,
                            columnOrder := int (length (activePlayers (gameState svc)))\<rparr>]
         \<and> settings (gameState (snd (addPlayer nm newId svc))) = settings (gameState svc)
         \<and> isGameOver (gameState (snd (addPlayer nm newId svc))) = isGameOver (gameState svc)
         \<and> gameWinnerId (gameState (snd (addPlayer nm newId svc))) = gameWinnerId (gameState svc)
         \<and> playersEligibleForRejoin (snd (addPlayer nm newId svc)) = playersEligibleForRejoin svc"
  using assms by (simp add: addPlayer_def Let_def activePlayers_def)

theorem C10_restore_without_recheck_witness:
  "\<not> isPlayerNameTaken (gameState svcCarolGone) (trim ''carol'')
   \<and> findRemovedPlayer (gameState svcCarolGone) (trim ''carol'') =
       Some \<lparr>player = pC\<lparr>isOut := True, originalColumnOrder := Some 2\<rparr>,
             rp_scores = [\<lparr>roundId = 1, savedScore = 110\<rparr>]\<rparr>
   \<and> map (\<lambda>p. (p_id p, isOut p, columnOrder p))
         (players (gameState (snd (addPlayer ''carol'' ''x9'' svcCarolGone)))) =
       [(''a1'', False, 0), (''b2'', False, 1), (''c3'', False, 2)]
   \<and> calculatePlayerTotal (gameState (snd (addPlayer ''carol'' ''x9'' svcCarolGone))) ''c3'' = 110
   \<and> maxPoints (settings (gameState (snd (addPlayer ''carol'' ''x9'' svcCarolGone)))) = 101"
proof -
  have h1: "\<not> isPlayerNameTaken (gameState svcCarolGone) (trim ''carol'')"
    by (simp add: svcCarolGone_eq isPlayerNameTaken_def trim_names lower_names pA_def pB_def)
  have h2: "findRemovedPlayer (gameState svcCarolGone) (trim ''carol'') =
       Some \<lparr>player = pC\<lparr>isOut := True, originalColumnOrder := Some 2\<rparr>,
             rp_scores = [\<lparr>roundId = 1, savedScore = 110\<rparr>]\<rparr>"
    by (simp add: svcCarolGone_eq findRemovedPlayer_def trim_names lower_names pC_def)
  have t: "calculatePlayerTotal (gameState (snd (addPlayer ''carol'' ''x9'' svcCarolGone))) ''c3'' = 110"
    using h1 h2
    by (simp add: addPlayer_def Let_def) (simp add: svcCarolGone_eq calculatePlayerTotal_def
        findScore_def pC_def)
  from C10_restore_without_recheck [OF h1 h2, of "''x9''"] h1 h2 t
  show ?thesis by (simp add: svcCarolGone_eq activePlayers_def pA_def pB_def pC_def)
qed

end
